theory Spec2Isabelle
  imports Main "HOL-Library.Sublist" "HOL-Library.Multiset" "HOL-Library.Log_Nat"
begin

section \<open>Text\<close>

text \<open>
  Python strings are modelled as \<open>string\<close>, one \<open>char\<close> per code point, for text whose
  code points lie below 256. The character tests below are Python's on that range:
  \<open>str.isspace\<close> (which is also what \<open>\s\<close> matches and what \<open>strip\<close> and \<open>split\<close> remove),
  \<open>str.lower\<close>, and the classes \<open>\d\<close> and \<open>\w\<close> of the \<open>re\<close> module.
  The substring test \<open>needle in text\<close> is \<open>sublist needle text\<close>.
\<close>

definition code :: "char \<Rightarrow> nat" where
  "code c = of_char c"

definition isspace :: "char \<Rightarrow> bool" where
  "isspace c = (code c \<in> {9, 10, 11, 12, 13, 28, 29, 30, 31, 32, 133, 160})"

definition isdigit :: "char \<Rightarrow> bool" where
  "isdigit c = (48 \<le> code c \<and> code c \<le> 57)"

definition isupper :: "char \<Rightarrow> bool" where
  "isupper c = ((65 \<le> code c \<and> code c \<le> 90) \<or> (192 \<le> code c \<and> code c \<le> 222 \<and> code c \<noteq> 215))"

definition lower_char :: "char \<Rightarrow> char" where
  "lower_char c = (if isupper c then char_of (code c + 32) else c)"

definition lower :: "string \<Rightarrow> string" where
  "lower s = map lower_char s"

definition strip :: "string \<Rightarrow> string" where
  "strip s = rev (dropWhile isspace (rev (dropWhile isspace s)))"

section \<open>Reference tables\<close>

text \<open>
  One row of the state CSV file (columns \<open>Electorate\<close>, \<open>Suburb\<close>, \<open>Postcode\<close>) and one row of
  the federal CSV file (columns \<open>Federal_Electorate\<close>, \<open>Suburb\<close>, \<open>Postcode\<close>), as
  \<open>csv.DictReader\<close> hands them to the loaders.
\<close>

record state_row =
  Electorate :: string
  Suburb :: string
  Postcode :: string

record federal_row =
  Federal_Electorate :: string
  fSuburb :: string
  fPostcode :: string

text \<open>The dictionaries \<open>{'electorate': ..., 'suburb': ...}\<close> stored under a postcode (the field
  names carry a prefix, since the clinic records below have keys of the same names).\<close>

record entry =
  entry_electorate :: string
  entry_suburb :: string

text \<open>
  \<open>load_state_mapping\<close>: \<open>mapping = defaultdict(list)\<close>, and for every row
  \<open>mapping[postcode].append({...})\<close>. Reading a missing key of a \<open>defaultdict(list)\<close> gives the
  empty list, to which the entry is appended.
\<close>

definition state_mapping_append :: "(string \<rightharpoonup> entry list) \<Rightarrow> state_row \<Rightarrow> (string \<rightharpoonup> entry list)" where
  "state_mapping_append mapping row =
     mapping(Postcode row \<mapsto>
       (case mapping (Postcode row) of None \<Rightarrow> [] | Some es \<Rightarrow> es)
         @ [\<lparr>entry_electorate = Electorate row, entry_suburb = Suburb row\<rparr>])"

definition load_state_mapping :: "state_row list \<Rightarrow> (string \<rightharpoonup> entry list)" where
  "load_state_mapping rows = foldl state_mapping_append Map.empty rows"

text \<open>
  \<open>load_federal_mapping\<close>: \<open>key = f"{postcode}_{suburb.lower().strip()}"\<close> and
  \<open>mapping[key] = federal_electorate\<close>; a later row with the same key overwrites.
\<close>

definition federal_key :: "string \<Rightarrow> string \<Rightarrow> string" where
  "federal_key postcode sub = postcode @ ''_'' @ strip (lower sub)"

definition load_federal_mapping :: "federal_row list \<Rightarrow> (string \<rightharpoonup> string)" where
  "load_federal_mapping rows =
     foldl (\<lambda>mapping row. mapping(federal_key (fPostcode row) (fSuburb row) \<mapsto> Federal_Electorate row))
       Map.empty rows"

section \<open>Electorate resolver\<close>

datatype py_error = IndexError

text \<open>
  The \<open>for entry in self.state_mapping[postcode]\<close> loop of \<open>get_state_electorate\<close>: the first
  entry whose normalised suburb equals the normalised query returns its electorate.
\<close>

fun scan_entries :: "entry list \<Rightarrow> string \<Rightarrow> string option" where
  "scan_entries [] suburb_normalized = None"
| "scan_entries (e # es) suburb_normalized =
     (if strip (lower (entry_suburb e)) = suburb_normalized then Some (entry_electorate e)
      else scan_entries es suburb_normalized)"

text \<open>
  \<open>get_state_electorate\<close>. The last line indexes the list at 0, which raises \<open>IndexError\<close> on
  an empty list.
\<close>

definition get_state_electorate :: "(string \<rightharpoonup> entry list) \<Rightarrow> string \<Rightarrow> string \<Rightarrow> py_error + string" where
  "get_state_electorate state_mapping postcode sub =
     (case state_mapping postcode of
        None \<Rightarrow> Inr ''Unknown''
      | Some es \<Rightarrow>
          (case scan_entries es (strip (lower sub)) of
             Some d \<Rightarrow> Inr d
           | None \<Rightarrow> (case es of [] \<Rightarrow> Inl IndexError | e0 # _ \<Rightarrow> Inr (entry_electorate e0))))"

text \<open>\<open>get_federal_electorate\<close>: \<open>self.federal_mapping.get(key, "Unknown")\<close>.\<close>

definition get_federal_electorate :: "(string \<rightharpoonup> string) \<Rightarrow> string \<Rightarrow> string \<Rightarrow> string" where
  "get_federal_electorate federal_mapping postcode sub =
     (case federal_mapping (federal_key postcode sub) of None \<Rightarrow> ''Unknown'' | Some d \<Rightarrow> d)"

section \<open>Clinic records\<close>

text \<open>
  The dictionary built by \<open>get_clinic_details\<close>. The keys shared by the three scripts form the
  base record; the state-only script adds the key \<open>electorate\<close>, the two dual-electorate
  scripts add \<open>state_electorate\<close> and \<open>federal_electorate\<close>.
\<close>

record clinic_base =
  name :: string
  address :: string
  suburb :: string
  postcode :: string
  phone :: string
  url :: string
  is_bulk_billed :: bool
  billing_status :: string
  last_checked :: string

record clinic_state_only = clinic_base +
  electorate :: string

record clinic = clinic_base +
  state_electorate :: string
  federal_electorate :: string

section \<open>Floating-point arithmetic of the percentage\<close>

text \<open>
  \<open>round(len(bulk_billed) / len(clinics) * 100, 1)\<close> is evaluated by Python on IEEE 754 binary64
  numbers. A binary64 number is represented by the rational it denotes. \<open>float_round\<close> rounds a
  rational to the nearest number with a 53-bit significand, ties to the even significand (the
  values met here lie between 0 and 100, far from overflow and from the subnormal range).
  Python's \<open>int / int\<close> and \<open>float * int\<close> return the correctly rounded quotient and product.
  \<open>round(x, 1)\<close> on a float rounds the exact value of \<open>x\<close> to one decimal, ties to even, and
  returns the binary64 number nearest to that decimal, which \<open>json.dump\<close> prints as that
  decimal; \<open>round1\<close> returns the decimal.
\<close>

definition round_half_even :: "rat \<Rightarrow> int" where
  "round_half_even x =
     (let f = \<lfloor>x\<rfloor>; d = x - of_int f
      in if d < 1 / 2 then f else if 1 / 2 < d then f + 1 else if even f then f else f + 1)"

text \<open>The exponent \<open>e\<close> with \<open>2 ^ e \<le> x < 2 ^ (e + 1)\<close>, for \<open>x > 0\<close>.\<close>

definition exponent :: "rat \<Rightarrow> int" where
  "exponent x = (if 1 \<le> x then bitlen \<lfloor>x\<rfloor> - 1 else - bitlen (\<lceil>1 / x\<rceil> - 1))"

definition float_round :: "rat \<Rightarrow> rat" where
  "float_round x =
     (if x = 0 then 0
      else let u = 2 powi (exponent \<bar>x\<bar> - 52) in of_int (round_half_even (x / u)) * u)"

definition float_truediv :: "nat \<Rightarrow> nat \<Rightarrow> rat" where
  "float_truediv a b = float_round (of_nat a / of_nat b)"

definition float_mul :: "rat \<Rightarrow> rat \<Rightarrow> rat" where
  "float_mul x y = float_round (x * y)"

definition round1 :: "rat \<Rightarrow> rat" where
  "round1 x = of_int (round_half_even (x * 10)) / 10"

section \<open>Deduplication and aggregation\<close>

text \<open>
  A Python \<open>dict\<close> keeps its keys in insertion order; \<open>unique_results\<close>, \<open>by_state\<close>,
  \<open>by_federal\<close> and the statistics dictionaries are association lists in that order.
\<close>

type_synonym 'v dict = "(string \<times> 'v) list"

text \<open>
  The loop \<open>for clinic in self.results: url = clinic.get('url');
  if url not in unique_results: unique_results[url] = clinic\<close>.
\<close>

fun unique_results_loop :: "clinic dict \<Rightarrow> clinic list \<Rightarrow> clinic dict" where
  "unique_results_loop unique_results [] = unique_results"
| "unique_results_loop unique_results (c # cs) =
     (if map_of unique_results (url c) = None
      then unique_results_loop (unique_results @ [(url c, c)]) cs
      else unique_results_loop unique_results cs)"

text \<open>\<open>self.results = list(unique_results.values())\<close>.\<close>

definition remove_duplicates :: "clinic list \<Rightarrow> clinic list" where
  "remove_duplicates results = map snd (unique_results_loop [] results)"

text \<open>
  \<open>by_state[state_elect].append(clinic)\<close> on a \<open>defaultdict(list)\<close>: a new key is added at the
  end with the one-element list, an old key keeps its place and gets the clinic appended.
\<close>

definition dd_append :: "'a list dict \<Rightarrow> string \<Rightarrow> 'a \<Rightarrow> 'a list dict" where
  "dd_append d k v =
     (case map_of d k of
        None \<Rightarrow> d @ [(k, [v])]
      | Some _ \<Rightarrow> map (\<lambda>(k', vs). if k' = k then (k', vs @ [v]) else (k', vs)) d)"

text \<open>The state of the loop that fills \<open>by_state\<close>, \<open>by_federal\<close> and \<open>bulk_billed_count\<close>.\<close>

record organized =
  by_state :: "clinic list dict"
  by_federal :: "clinic list dict"
  bulk_billed_count :: nat

definition organize_step :: "organized \<Rightarrow> clinic \<Rightarrow> organized" where
  "organize_step org c =
     \<lparr>by_state = dd_append (by_state org) (state_electorate c) c,
      by_federal = dd_append (by_federal org) (federal_electorate c) c,
      bulk_billed_count = (if is_bulk_billed c then bulk_billed_count org + 1 else bulk_billed_count org)\<rparr>"

definition organize :: "clinic list \<Rightarrow> organized" where
  "organize results = foldl organize_step \<lparr>by_state = [], by_federal = [], bulk_billed_count = 0\<rparr> results"

record counts =
  total_clinics :: nat
  bulk_billed_clinics :: nat

record stats = counts +
  percentage :: rat

record summary = counts +
  state_electorates_covered :: nat
  federal_electorates_covered :: nat

text \<open>The dictionary stored in \<open>state_stats[electorate]\<close> and \<open>federal_stats[electorate]\<close>.\<close>

definition electorate_stats :: "clinic list \<Rightarrow> stats" where
  "electorate_stats clinics =
     (let bulk_billed = filter is_bulk_billed clinics
      in \<lparr>total_clinics = length clinics,
          bulk_billed_clinics = length bulk_billed,
          percentage = (if clinics \<noteq> []
                        then round1 (float_mul (float_truediv (length bulk_billed) (length clinics)) 100)
                        else 0)\<rparr>)"

definition create_stats :: "clinic list dict \<Rightarrow> stats dict" where
  "create_stats by_electorate = map (\<lambda>(e, clinics). (e, electorate_stats clinics)) by_electorate"

record report =
  last_updated :: string
  summary :: summary
  by_state_electorate :: "clinic list dict"
  by_federal_electorate :: "clinic list dict"
  state_electorate_stats :: "stats dict"
  federal_electorate_stats :: "stats dict"

text \<open>
  \<open>save_results\<close>, up to the file it writes: the new value of \<open>self.results\<close> and the \<open>output\<close>
  dictionary handed to \<open>json.dump\<close>. \<open>now\<close> is the timestamp \<open>datetime.now()\<close> gives.
\<close>

definition save_results :: "string \<Rightarrow> clinic list \<Rightarrow> clinic list \<times> report" where
  "save_results now results0 =
     (let results = remove_duplicates results0;
          org = organize results
      in (results,
          \<lparr>last_updated = now,
           summary = \<lparr>total_clinics = length results,
                      bulk_billed_clinics = bulk_billed_count org,
                      state_electorates_covered = length (by_state org),
                      federal_electorates_covered = length (by_federal org)\<rparr>,
           by_state_electorate = by_state org,
           by_federal_electorate = by_federal org,
           state_electorate_stats = create_stats (by_state org),
           federal_electorate_stats = create_stats (by_federal org)\<rparr>))"

section \<open>Regular expressions\<close>

text \<open>
  The patterns of the scripts are searched by Python's \<open>re\<close> module, a backtracking matcher:
  alternatives are tried left to right, a greedy quantifier tries the longest repetition
  first and a lazy one the shortest, and the first way to match the whole pattern wins.
  \<open>match\<close> is that matcher in continuation-passing style: \<open>match ic r k st\<close> tries the ways
  \<open>r\<close> can match at state \<open>st\<close>, in Python's order, and returns the first result the
  continuation \<open>k\<close> accepts. \<open>ic\<close> is the flag \<open>re.IGNORECASE\<close>. The state holds the character
  before the position (for \<open>\b\<close>), the text from the position on, and the text of capturing
  group 1 once it is closed. In the patterns of the scripts the quantifiers \<open>*\<close>, \<open>+\<close>,
  \<open>*?\<close>, \<open>+?\<close> and \<open>{n}\<close> are applied to single-character patterns only, and the
  datatype has them at that type; \<open>?\<close> is also applied to a group.
\<close>

definition upper_char :: "char \<Rightarrow> char" where
  "upper_char c =
     (if (97 \<le> code c \<and> code c \<le> 122) \<or> (224 \<le> code c \<and> code c \<le> 254 \<and> code c \<noteq> 247)
      then char_of (code c - 32) else c)"

text \<open>\<open>\w\<close>: letters, digits (also superscripts and fractions) and the underscore.\<close>

definition isword :: "char \<Rightarrow> bool" where
  "isword c =
     (isdigit c \<or> (65 \<le> code c \<and> code c \<le> 90) \<or> code c = 95 \<or> (97 \<le> code c \<and> code c \<le> 122)
      \<or> code c \<in> {170, 178, 179, 181, 185, 186, 188, 189, 190}
      \<or> (192 \<le> code c \<and> code c \<noteq> 215 \<and> code c \<noteq> 247))"

text \<open>The members of a character class: a character, a range, \<open>\d\<close>, \<open>\s\<close>.\<close>

datatype cset = Chr char | Range char char | Digit | Space

text \<open>A pattern for one character: a class, a negated class, or the dot (any character but newline).\<close>

datatype chars = In "cset list" | NotIn "cset list" | Dot

datatype regex =
    Lit string
  | One chars
  | WordBoundary
  | Seq regex regex
  | Alt regex regex
  | Opt regex
  | Star chars
  | Plus chars
  | LazyStar chars
  | LazyPlus chars
  | Times nat chars
  | Group regex

record mstate =
  prev :: "char option"
  rest :: string
  group1 :: "string option"

fun cset_has :: "cset \<Rightarrow> char \<Rightarrow> bool" where
  "cset_has (Chr a) c = (c = a)"
| "cset_has (Range lo hi) c = (code lo \<le> code c \<and> code c \<le> code hi)"
| "cset_has Digit c = isdigit c"
| "cset_has Space c = isspace c"

text \<open>With \<open>re.IGNORECASE\<close> a character is in a class when one of its case variants is.\<close>

definition in_class :: "bool \<Rightarrow> cset list \<Rightarrow> char \<Rightarrow> bool" where
  "in_class ic items c =
     list_ex (\<lambda>i. cset_has i c \<or> (ic \<and> (cset_has i (lower_char c) \<or> cset_has i (upper_char c)))) items"

fun accepts :: "bool \<Rightarrow> chars \<Rightarrow> char \<Rightarrow> bool" where
  "accepts ic (In items) c = in_class ic items c"
| "accepts ic (NotIn items) c = (\<not> in_class ic items c)"
| "accepts ic Dot c = (code c \<noteq> 10)"

definition step_char :: "(char \<Rightarrow> bool) \<Rightarrow> (mstate \<Rightarrow> 'a option) \<Rightarrow> mstate \<Rightarrow> 'a option" where
  "step_char p k st =
     (case rest st of
        [] \<Rightarrow> None
      | c # cs \<Rightarrow> if p c then k (st\<lparr>prev := Some c, rest := cs\<rparr>) else None)"

fun lit :: "bool \<Rightarrow> string \<Rightarrow> (mstate \<Rightarrow> 'a option) \<Rightarrow> mstate \<Rightarrow> 'a option" where
  "lit ic [] k st = k st"
| "lit ic (a # as) k st = step_char (in_class ic [Chr a]) (lit ic as k) st"

definition at_boundary :: "mstate \<Rightarrow> bool" where
  "at_boundary st =
     ((case prev st of None \<Rightarrow> False | Some c \<Rightarrow> isword c)
        \<noteq> (case rest st of [] \<Rightarrow> False | c # _ \<Rightarrow> isword c))"

text \<open>
  Greedy repetition of a one-character pattern: take the character if it is accepted and
  repeat; when that way fails, or the character is not accepted, go on with the continuation
  from here. The arguments after the continuation are the fields of the state.
\<close>

fun greedy :: "(char \<Rightarrow> bool) \<Rightarrow> (mstate \<Rightarrow> 'a option) \<Rightarrow> char option \<Rightarrow> string \<Rightarrow> string option \<Rightarrow> 'a option" where
  "greedy p k pv [] g = k \<lparr>prev = pv, rest = [], group1 = g\<rparr>"
| "greedy p k pv (c # cs) g =
     (if p c
      then (case greedy p k (Some c) cs g of
              Some x \<Rightarrow> Some x
            | None \<Rightarrow> k \<lparr>prev = pv, rest = c # cs, group1 = g\<rparr>)
      else k \<lparr>prev = pv, rest = c # cs, group1 = g\<rparr>)"

text \<open>Lazy repetition: first the continuation from here, then one more character.\<close>

fun lazy :: "(char \<Rightarrow> bool) \<Rightarrow> (mstate \<Rightarrow> 'a option) \<Rightarrow> char option \<Rightarrow> string \<Rightarrow> string option \<Rightarrow> 'a option" where
  "lazy p k pv [] g = k \<lparr>prev = pv, rest = [], group1 = g\<rparr>"
| "lazy p k pv (c # cs) g =
     (case k \<lparr>prev = pv, rest = c # cs, group1 = g\<rparr> of
        Some x \<Rightarrow> Some x
      | None \<Rightarrow> if p c then lazy p k (Some c) cs g else None)"

primrec exactly :: "nat \<Rightarrow> (char \<Rightarrow> bool) \<Rightarrow> (mstate \<Rightarrow> 'a option) \<Rightarrow> mstate \<Rightarrow> 'a option" where
  "exactly 0 p k = k"
| "exactly (Suc n) p k = step_char p (exactly n p k)"

definition close_group :: "mstate \<Rightarrow> mstate \<Rightarrow> mstate" where
  "close_group st st' = st'\<lparr>group1 := Some (take (length (rest st) - length (rest st')) (rest st))\<rparr>"

primrec match :: "bool \<Rightarrow> regex \<Rightarrow> (mstate \<Rightarrow> 'a option) \<Rightarrow> mstate \<Rightarrow> 'a option" where
  "match ic (Lit s) k st = lit ic s k st"
| "match ic (One cs) k st = step_char (accepts ic cs) k st"
| "match ic WordBoundary k st = (if at_boundary st then k st else None)"
| "match ic (Seq r1 r2) k st = match ic r1 (match ic r2 k) st"
| "match ic (Alt r1 r2) k st = (case match ic r1 k st of Some x \<Rightarrow> Some x | None \<Rightarrow> match ic r2 k st)"
| "match ic (Opt r) k st = (case match ic r k st of Some x \<Rightarrow> Some x | None \<Rightarrow> k st)"
| "match ic (Star cs) k st = greedy (accepts ic cs) k (prev st) (rest st) (group1 st)"
| "match ic (Plus cs) k st =
     step_char (accepts ic cs) (\<lambda>st'. greedy (accepts ic cs) k (prev st') (rest st') (group1 st')) st"
| "match ic (LazyStar cs) k st = lazy (accepts ic cs) k (prev st) (rest st) (group1 st)"
| "match ic (LazyPlus cs) k st =
     step_char (accepts ic cs) (\<lambda>st'. lazy (accepts ic cs) k (prev st') (rest st') (group1 st')) st"
| "match ic (Times n cs) k st = exactly n (accepts ic cs) k st"
| "match ic (Group r) k st = match ic r (\<lambda>st'. k (close_group st st')) st"

text \<open>
  A match object: the text matched (\<open>group(0)\<close>), the text of group 1 (\<open>group(1)\<close>) and the
  state after the match.
\<close>

record re_match =
  group0 :: string
  group :: "string option"
  after :: mstate

definition match_here :: "bool \<Rightarrow> regex \<Rightarrow> char option \<Rightarrow> string \<Rightarrow> re_match option" where
  "match_here ic r p s =
     (case match ic r Some \<lparr>prev = p, rest = s, group1 = None\<rparr> of
        None \<Rightarrow> None
      | Some st' \<Rightarrow>
          Some \<lparr>group0 = take (length s - length (rest st')) s, group = group1 st', after = st'\<rparr>)"

text \<open>\<open>re.search\<close>: the match at the first position of the text where the pattern matches.\<close>

fun search_from :: "bool \<Rightarrow> regex \<Rightarrow> char option \<Rightarrow> string \<Rightarrow> re_match option" where
  "search_from ic r p [] = match_here ic r p []"
| "search_from ic r p (c # cs) =
     (case match_here ic r p (c # cs) of
        Some m \<Rightarrow> Some m
      | None \<Rightarrow> search_from ic r (Some c) cs)"

definition re_search :: "bool \<Rightarrow> regex \<Rightarrow> string \<Rightarrow> re_match option" where
  "re_search ic r s = search_from ic r None s"

text \<open>
  \<open>m.group(1)\<close>. In every pattern of the scripts that has a group, the group takes part in
  every match.
\<close>

definition group_1 :: "re_match \<Rightarrow> string" where
  "group_1 m = (case group m of Some g \<Rightarrow> g | None \<Rightarrow> [])"

text \<open>
  \<open>re.findall\<close> for a pattern with one group: the group texts of the successive matches, each
  search starting where the previous match ended. The patterns of the scripts never match
  the empty text, so every match ends beyond its start, and there are no more matches than
  characters.
\<close>

fun findall_from :: "nat \<Rightarrow> bool \<Rightarrow> regex \<Rightarrow> char option \<Rightarrow> string \<Rightarrow> string list" where
  "findall_from 0 ic r p s = []"
| "findall_from (Suc n) ic r p s =
     (case search_from ic r p s of
        None \<Rightarrow> []
      | Some m \<Rightarrow> group_1 m # findall_from n ic r (prev (after m)) (rest (after m)))"

definition re_findall :: "bool \<Rightarrow> regex \<Rightarrow> string \<Rightarrow> string list" where
  "re_findall ic r s = findall_from (length s) ic r None s"

fun seq :: "regex list \<Rightarrow> regex" where
  "seq [] = Lit []"
| "seq [r] = r"
| "seq (r # rs) = Seq r (seq rs)"

fun alts :: "string list \<Rightarrow> regex" where
  "alts [] = Lit []"
| "alts [s] = Lit s"
| "alts (s # ss) = Alt (Lit s) (alts ss)"

definition digit :: chars where
  "digit = In [Digit]"

definition space :: chars where
  "space = In [Space]"

text \<open>\<^verbatim>\<open>\b(\d{4})\b\<close>\<close>

definition postcode_re :: regex where
  "postcode_re = seq [WordBoundary, Group (Times 4 digit), WordBoundary]"

text \<open>\<^verbatim>\<open>([A-Z][A-Z\s]+)\s+WA\s+\d{4}\<close>\<close>

definition suburb_re :: regex where
  "suburb_re =
     seq [Group (seq [One (In [Range CHR ''A'' CHR ''Z'']), Plus (In [Range CHR ''A'' CHR ''Z'', Space])]),
          Plus space, Lit ''WA'', Plus space, Times 4 digit]"

text \<open>\<^verbatim>\<open>tel:\<close>\<close>

definition tel_re :: regex where
  "tel_re = Lit ''tel:''"

text \<open>\<^verbatim>\<open>(\d{2}\s?\d{4}\s?\d{4})\<close>, the phone pattern of the state-only script.\<close>

definition phone_re :: regex where
  "phone_re = Group (seq [Times 2 digit, Opt (One space), Times 4 digit, Opt (One space), Times 4 digit])"

text \<open>\<^verbatim>\<open>(?:Phone[:\s]*)?(\d{2}\s?\d{4}\s?\d{4})\<close>, the phone pattern of the improved-address script.\<close>

definition labelled_phone_re :: regex where
  "labelled_phone_re = seq [Opt (seq [Lit ''Phone'', Star (In [Chr CHR '':'', Space])]), phone_re]"

text \<open>
  \<^verbatim>\<open>\d+\s+[A-Z][a-zA-Z\s]+(?:Street|St|Road|Rd|Avenue|Ave|Drive|Dr|Boulevard|Blvd|Lane|Ln|Court|Ct|Terrace|Tce|Way|Highway|Hwy|Place|Pl|Crescent|Cres).*WA\s+\d{4}\<close>
\<close>

definition street_re :: regex where
  "street_re =
     seq [Plus digit, Plus space, One (In [Range CHR ''A'' CHR ''Z'']),
          Plus (In [Range CHR ''a'' CHR ''z'', Range CHR ''A'' CHR ''Z'', Space]),
          alts [''Street'', ''St'', ''Road'', ''Rd'', ''Avenue'', ''Ave'', ''Drive'', ''Dr'', ''Boulevard'',
                ''Blvd'', ''Lane'', ''Ln'', ''Court'', ''Ct'', ''Terrace'', ''Tce'', ''Way'', ''Highway'', ''Hwy'',
                ''Place'', ''Pl'', ''Crescent'', ''Cres''],
          Star Dot, Lit ''WA'', Plus space, Times 4 digit]"

text \<open>\<^verbatim>\<open>Get directions|View map|Map\<close>\<close>

definition directions_re :: regex where
  "directions_re = alts [''Get directions'', ''View map'', ''Map'']"

text \<open>
  \<^verbatim>\<open>(?:Address[:\s]*)?([^.]+WA\s+\d{4})\<close>, where the character excluded by the class is the
  middle dot, code point 183.
\<close>

definition near_link_re :: regex where
  "near_link_re =
     seq [Opt (seq [Lit ''Address'', Star (In [Chr CHR '':'', Space])]),
          Group (seq [Plus (NotIn [Chr (char_of (183 :: nat))]), Lit ''WA'', Plus space, Times 4 digit])]"

text \<open>\<^verbatim>\<open>([^\.]+?\d+[^\.]*?WA\s+\d{4})\<close>\<close>

definition page_re :: regex where
  "page_re =
     Group (seq [LazyPlus (NotIn [Chr CHR ''.'']), Plus digit, LazyStar (NotIn [Chr CHR ''.'']),
                 Lit ''WA'', Plus space, Times 4 digit])"

text \<open>
  \<open>needs a r\<close>: every way through the pattern \<open>r\<close> passes a literal text with the
  character \<open>a\<close>.
\<close>

fun needs :: "char \<Rightarrow> regex \<Rightarrow> bool" where
  "needs a (Lit s) = (a \<in> set s)"
| "needs a (Seq r1 r2) = (needs a r1 \<or> needs a r2)"
| "needs a (Alt r1 r2) = (needs a r1 \<and> needs a r2)"
| "needs a (Group r) = needs a r"
| "needs a (One cs) = False"
| "needs a WordBoundary = False"
| "needs a (Opt r) = False"
| "needs a (Star cs) = False"
| "needs a (Plus cs) = False"
| "needs a (LazyStar cs) = False"
| "needs a (LazyPlus cs) = False"
| "needs a (Times n cs) = False"

section \<open>Parsed pages\<close>

text \<open>
  The tree \<open>BeautifulSoup(response.text, 'html.parser')\<close> builds. \<open>Text\<close> is a string of the
  page that \<open>get_text\<close> collects; \<open>Special\<close> is a string it leaves out (a comment, the content
  of a script or style element); \<open>Tag\<close> is an element with its name (in lower case, as the
  parser gives it), its attribute dictionary and its children. A page is the list of the
  top-level nodes.
\<close>

datatype node = Text string | Special string | Tag string "(string \<times> string) list" "node list"

type_synonym soup = "node list"

text \<open>The nodes below a list of nodes in document order, each with its ancestors, nearest first.\<close>

fun walk :: "node list \<Rightarrow> node list \<Rightarrow> (node \<times> node list) list" where
  "walk ancestors [] = []"
| "walk ancestors (Text s # ns) = (Text s, ancestors) # walk ancestors ns"
| "walk ancestors (Special s # ns) = (Special s, ancestors) # walk ancestors ns"
| "walk ancestors (Tag n a cs # ns) =
     (Tag n a cs, ancestors) # walk (Tag n a cs # ancestors) cs @ walk ancestors ns"

definition descendants :: "node list \<Rightarrow> node list" where
  "descendants ns = map fst (walk [] ns)"

fun is_tag :: "string list \<Rightarrow> node \<Rightarrow> bool" where
  "is_tag names (Tag n a cs) = (n \<in> set names)"
| "is_tag names (Text s) = False"
| "is_tag names (Special s) = False"

fun attr :: "string \<Rightarrow> node \<Rightarrow> string option" where
  "attr key (Tag n a cs) = map_of a key"
| "attr key (Text s) = None"
| "attr key (Special s) = None"

fun contents :: "node \<Rightarrow> node list" where
  "contents (Tag n a cs) = cs"
| "contents (Text s) = []"
| "contents (Special s) = []"

fun strings :: "node list \<Rightarrow> string list" where
  "strings [] = []"
| "strings (Text s # ns) = s # strings ns"
| "strings (Special s # ns) = strings ns"
| "strings (Tag n a cs # ns) = strings cs @ strings ns"

text \<open>\<open>get_text()\<close> joins the strings; \<open>get_text(strip=True)\<close> strips each and leaves out the empty ones.\<close>

definition get_text :: "node list \<Rightarrow> string" where
  "get_text ns = concat (strings ns)"

definition get_text_strip :: "node list \<Rightarrow> string" where
  "get_text_strip ns = concat (filter (\<lambda>s. s \<noteq> []) (map strip (strings ns)))"

text \<open>\<open>tag.string\<close>: the string of a tag whose only child is a string, or a tag with such a string.\<close>

fun tag_string :: "node \<Rightarrow> string option" where
  "tag_string (Text s) = Some s"
| "tag_string (Special s) = Some s"
| "tag_string (Tag n a [c]) = tag_string c"
| "tag_string (Tag n a cs) = None"

definition find_all :: "string list \<Rightarrow> soup \<Rightarrow> node list" where
  "find_all names sp = filter (is_tag names) (descendants sp)"

text \<open>\<open>soup.find(name)\<close>: the first element of that name in document order.\<close>

definition soup_find :: "string \<Rightarrow> soup \<Rightarrow> node option" where
  "soup_find nm sp = find (is_tag [nm]) (descendants sp)"

text \<open>
  \<open>soup.find('a', href=re.compile(r'tel:'))\<close>: the first \<open>a\<close> element that has an \<open>href\<close>
  attribute in which the pattern is found.
\<close>

definition href_has_tel :: "node \<Rightarrow> bool" where
  "href_has_tel nd = (case attr ''href'' nd of None \<Rightarrow> False | Some v \<Rightarrow> re_search False tel_re v \<noteq> None)"

definition find_tel_link :: "soup \<Rightarrow> node option" where
  "find_tel_link sp = find (\<lambda>nd. is_tag [''a''] nd \<and> href_has_tel nd) (descendants sp)"

text \<open>
  \<open>soup.find('a', string=re.compile(r'Get directions|View map|Map', re.IGNORECASE))\<close>: the first
  \<open>a\<close> element whose \<open>.string\<close> exists and contains a match; it is returned with its ancestors.
\<close>

definition string_has_directions :: "node \<Rightarrow> bool" where
  "string_has_directions nd =
     (case tag_string nd of None \<Rightarrow> False | Some s \<Rightarrow> re_search True directions_re s \<noteq> None)"

definition find_directions_link :: "soup \<Rightarrow> (node \<times> node list) option" where
  "find_directions_link sp = find (\<lambda>(nd, ancestors). is_tag [''a''] nd \<and> string_has_directions nd) (walk [] sp)"

text \<open>\<open>link.find_parent(names)\<close>: the nearest ancestor with one of the names.\<close>

definition find_parent :: "string list \<Rightarrow> node list \<Rightarrow> node option" where
  "find_parent names ancestors = find (is_tag names) ancestors"

section \<open>Billing classifier\<close>

text \<open>
  The chain of \<open>if\<close> and \<open>elif\<close> on \<open>page_text\<close>, which all three scripts have in
  \<open>get_clinic_details\<close>; it returns \<open>(is_bulk_billed, billing_status)\<close>.
\<close>

definition classify_billing :: "string \<Rightarrow> bool \<times> string" where
  "classify_billing page_text =
     (if sublist ''bulk billing only'' page_text then (True, ''100% Bulk Billed'')
      else if sublist ''100% bulk bill'' page_text \<or> sublist ''fully bulk billed'' page_text
        then (True, ''100% Bulk Billed'')
      else if sublist ''bulk bills all patients'' page_text then (True, ''100% Bulk Billed'')
      else if sublist ''mixed billing'' page_text then (False, ''Mixed Billing'')
      else if sublist ''fees apply'' page_text \<or> sublist ''private billing'' page_text
        then (False, ''Private Billing'')
      else (False, ''Unknown''))"

section \<open>Address extractor\<close>

text \<open>\<open>' '.join(text.split())\<close>: the words of the text, joined by single spaces.\<close>

fun split_from :: "string \<Rightarrow> string \<Rightarrow> string list" where
  "split_from cur [] = (if cur = [] then [] else [cur])"
| "split_from cur (c # cs) =
     (if isspace c then (if cur = [] then split_from [] cs else cur # split_from [] cs)
      else split_from (cur @ [c]) cs)"

definition split :: "string \<Rightarrow> string list" where
  "split s = split_from [] s"

fun join :: "string \<Rightarrow> string list \<Rightarrow> string" where
  "join sep [] = []"
| "join sep [x] = x"
| "join sep (x # y # ys) = x @ sep @ join sep (y # ys)"

definition collapse :: "string \<Rightarrow> string" where
  "collapse s = join '' '' (split s)"

text \<open>
  What \<open>json.loads\<close> returns. \<open>json.loads\<close> itself and Python's \<open>str\<close> of a value that is not a
  string belong to the Python library; the extractor takes them as the parameters
  \<open>json_loads\<close> (\<open>None\<close> when the call raises) and \<open>py_str\<close>.
\<close>

datatype json =
    JNull
  | JBool bool
  | JNumber rat
  | JString string
  | JArray "json list"
  | JObject "(string \<times> json) list"

record python =
  json_loads :: "string \<Rightarrow> json option"
  py_str :: "json \<Rightarrow> string"

fun truthy :: "json \<Rightarrow> bool" where
  "truthy JNull = False"
| "truthy (JBool b) = b"
| "truthy (JNumber x) = (x \<noteq> 0)"
| "truthy (JString s) = (s \<noteq> [])"
| "truthy (JArray xs) = (xs \<noteq> [])"
| "truthy (JObject kvs) = (kvs \<noteq> [])"

fun format_value :: "python \<Rightarrow> json \<Rightarrow> string" where
  "format_value py (JString s) = s"
| "format_value py v = py_str py v"

text \<open>\<open>addr.get(key, '')\<close>\<close>

definition get_or_empty :: "(string \<times> json) list \<Rightarrow> string \<Rightarrow> json" where
  "get_or_empty addr key = (case map_of addr key of None \<Rightarrow> JString [] | Some v \<Rightarrow> v)"

text \<open>METHOD 1: the \<open>address\<close> element.\<close>

definition method1 :: "soup \<Rightarrow> string option" where
  "method1 sp =
     (case soup_find ''address'' sp of
        None \<Rightarrow> None
      | Some address_elem \<Rightarrow>
          (let address_text = collapse (get_text_strip (contents address_elem))
           in if length address_text > 10 \<and> sublist ''WA'' address_text then Some address_text else None))"

text \<open>METHOD 2: the first \<open>p\<close>, \<open>div\<close> or \<open>span\<close> whose text has a street pattern.\<close>

definition method2 :: "soup \<Rightarrow> string option" where
  "method2 sp =
     (case find (\<lambda>text. re_search True street_re text \<noteq> None)
             (map (\<lambda>elem. get_text_strip (contents elem)) (find_all [''p'', ''div'', ''span''] sp)) of
        None \<Rightarrow> None
      | Some text \<Rightarrow> Some (collapse text))"

text \<open>METHOD 3: the text around a directions link.\<close>

definition method3 :: "soup \<Rightarrow> string option" where
  "method3 sp =
     (case find_directions_link sp of
        None \<Rightarrow> None
      | Some (directions_link, ancestors) \<Rightarrow>
          (case find_parent [''div'', ''section'', ''article''] ancestors of
             None \<Rightarrow> None
           | Some parent \<Rightarrow>
               (case re_search True near_link_re (get_text_strip (contents parent)) of
                  None \<Rightarrow> None
                | Some m \<Rightarrow> Some (strip (group_1 m)))))"

text \<open>
  METHOD 4: structured data. One pass of the loop body for a script element; \<open>None\<close> is
  \<open>continue\<close> (also after an exception) or the end of the body without \<open>return\<close>.
\<close>

definition script_address :: "python \<Rightarrow> node \<Rightarrow> string option" where
  "script_address py script =
     (case tag_string script of
        None \<Rightarrow> None
      | Some text \<Rightarrow>
          (case json_loads py text of
             Some (JObject data) \<Rightarrow>
               (case map_of data ''address'' of
                  Some (JObject addr) \<Rightarrow>
                    (let street = get_or_empty addr ''streetAddress'';
                         locality = get_or_empty addr ''addressLocality'';
                         region = get_or_empty addr ''addressRegion'';
                         postal = get_or_empty addr ''postalCode''
                     in if truthy street \<and> truthy locality
                        then Some (strip (format_value py street @ '', '' @ format_value py locality @ '' ''
                                           @ format_value py region @ '' '' @ format_value py postal))
                        else None)
                | _ \<Rightarrow> None)
           | _ \<Rightarrow> None))"

fun first_some :: "('a \<Rightarrow> 'b option) \<Rightarrow> 'a list \<Rightarrow> 'b option" where
  "first_some f [] = None"
| "first_some f (x # xs) = (case f x of Some y \<Rightarrow> Some y | None \<Rightarrow> first_some f xs)"

definition method4 :: "python \<Rightarrow> soup \<Rightarrow> string option" where
  "method4 py sp =
     first_some (script_address py)
       (filter (\<lambda>nd. attr ''type'' nd = Some ''application/ld+json'') (find_all [''script''] sp))"

text \<open>METHOD 5: any text of the page that ends in WA and a postcode.\<close>

definition has_street_keyword :: "string \<Rightarrow> bool" where
  "has_street_keyword m =
     list_ex (\<lambda>keyword. sublist keyword (lower m))
       [''street'', ''st'', ''road'', ''rd'', ''avenue'', ''ave'', ''drive'', ''dr'']"

definition method5 :: "soup \<Rightarrow> string option" where
  "method5 sp =
     (case find (\<lambda>m. length m > 15 \<and> has_street_keyword m)
             (map strip (re_findall True page_re (get_text sp))) of
        None \<Rightarrow> None
      | Some m \<Rightarrow> Some (collapse m))"

text \<open>\<open>extract_address_better\<close>: the five methods in order; \<open>None\<close> when none returns.\<close>

definition extract_address_better :: "python \<Rightarrow> soup \<Rightarrow> string option" where
  "extract_address_better py sp =
     (case method1 sp of
        Some a \<Rightarrow> Some a
      | None \<Rightarrow>
     (case method2 sp of
        Some a \<Rightarrow> Some a
      | None \<Rightarrow>
     (case method3 sp of
        Some a \<Rightarrow> Some a
      | None \<Rightarrow>
     (case method4 py sp of
        Some a \<Rightarrow> Some a
      | None \<Rightarrow> method5 sp))))"

section \<open>Clinic record builder\<close>

text \<open>
  The parts of \<open>get_clinic_details\<close> that read the page. The request and the parser are
  outside the model: the builders take the parsed page, and \<open>now\<close> for the timestamp.
\<close>

text \<open>\<open>name_elem = soup.find('h1') or soup.find('h2')\<close> and the clinic name.\<close>

definition clinic_name :: "soup \<Rightarrow> string" where
  "clinic_name sp =
     (case (case soup_find ''h1'' sp of Some e \<Rightarrow> Some e | None \<Rightarrow> soup_find ''h2'' sp) of
        Some name_elem \<Rightarrow> get_text_strip (contents name_elem)
      | None \<Rightarrow> ''Unknown'')"

text \<open>
  The suburb and the postcode of the record: the search values, replaced by what the two
  patterns find in a non-empty address text.
\<close>

definition address_postcode :: "string \<Rightarrow> string \<Rightarrow> string" where
  "address_postcode address_text search_postcode =
     (if address_text \<noteq> []
      then (case re_search False postcode_re address_text of
              Some pc_match \<Rightarrow> group_1 pc_match
            | None \<Rightarrow> search_postcode)
      else search_postcode)"

definition address_suburb :: "string \<Rightarrow> string \<Rightarrow> string" where
  "address_suburb address_text search_suburb =
     (if address_text \<noteq> []
      then (case re_search False suburb_re address_text of
              Some suburb_match \<Rightarrow> strip (group_1 suburb_match)
            | None \<Rightarrow> search_suburb)
      else search_suburb)"

text \<open>The phone of the dual-electorate script: the link text, or \<open>N/A\<close>.\<close>

definition phone_from_link :: "soup \<Rightarrow> string" where
  "phone_from_link sp =
     (case find_tel_link sp of
        Some phone_elem \<Rightarrow> get_text_strip (contents phone_elem)
      | None \<Rightarrow> ''N/A'')"

text \<open>
  The phone of the state-only and the improved-address scripts: the link text, else the first
  match of the script's phone pattern in the page text, else \<open>N/A\<close>.
\<close>

definition phone_from_link_or_text :: "regex \<Rightarrow> soup \<Rightarrow> string" where
  "phone_from_link_or_text pattern sp =
     (case find_tel_link sp of
        Some phone_elem \<Rightarrow> get_text_strip (contents phone_elem)
      | None \<Rightarrow>
          (case re_search False pattern (get_text sp) of
             Some phone_match \<Rightarrow> group_1 phone_match
           | None \<Rightarrow> ''N/A''))"

text \<open>\<open>str.isdigit\<close>, which the state-only script applies to the characters of a text.\<close>

definition str_isdigit :: "char \<Rightarrow> bool" where
  "str_isdigit c = (isdigit c \<or> code c \<in> {178, 179, 185})"

text \<open>
  The address of the state-only script (\<open>wa_bulk_billing_FIXED.py\<close>): the \<open>address\<close> element if
  there is one, else the first \<open>p\<close> or \<open>div\<close> whose text has \<open>WA\<close> and a digit, else the empty
  text.
\<close>

definition address_FIXED :: "soup \<Rightarrow> string" where
  "address_FIXED sp =
     (case soup_find ''address'' sp of
        Some address_elem \<Rightarrow> get_text_strip (contents address_elem)
      | None \<Rightarrow>
          (case find (\<lambda>text. sublist ''WA'' text \<and> list_ex str_isdigit text)
                  (map (\<lambda>elem. get_text (contents elem)) (find_all [''p'', ''div''] sp)) of
             Some text \<Rightarrow> strip text
           | None \<Rightarrow> []))"

definition get_clinic_details_FIXED ::
  "string \<Rightarrow> soup \<Rightarrow> string \<Rightarrow> string \<Rightarrow> string \<Rightarrow> string \<Rightarrow> clinic_state_only" where
  "get_clinic_details_FIXED now sp page_url search_postcode search_suburb search_electorate =
     (let address_text = address_FIXED sp;
          billing = classify_billing (lower (get_text sp))
      in \<lparr>name = clinic_name sp,
          address = (if address_text \<noteq> [] then address_text else ''Unknown''),
          suburb = address_suburb address_text search_suburb,
          postcode = address_postcode address_text search_postcode,
          phone = phone_from_link_or_text phone_re sp,
          url = page_url,
          is_bulk_billed = fst billing,
          billing_status = snd billing,
          last_checked = now,
          electorate = search_electorate\<rparr>)"

text \<open>The address of the dual-electorate script: the \<open>address\<close> element, else the empty text.\<close>

definition address_STATE_AND_FEDERAL :: "soup \<Rightarrow> string" where
  "address_STATE_AND_FEDERAL sp =
     (case soup_find ''address'' sp of
        Some address_elem \<Rightarrow> get_text_strip (contents address_elem)
      | None \<Rightarrow> [])"

definition get_clinic_details_STATE_AND_FEDERAL ::
  "(string \<rightharpoonup> string) \<Rightarrow> string \<Rightarrow> soup \<Rightarrow> string \<Rightarrow> string \<Rightarrow> string \<Rightarrow> string \<Rightarrow> clinic" where
  "get_clinic_details_STATE_AND_FEDERAL federal_mapping now sp page_url search_postcode search_suburb
       search_state_electorate =
     (let address_text = address_STATE_AND_FEDERAL sp;
          sub = address_suburb address_text search_suburb;
          pc = address_postcode address_text search_postcode;
          billing = classify_billing (lower (get_text sp))
      in \<lparr>name = clinic_name sp,
          address = (if address_text \<noteq> [] then address_text else ''Unknown''),
          suburb = sub,
          postcode = pc,
          phone = phone_from_link sp,
          url = page_url,
          is_bulk_billed = fst billing,
          billing_status = snd billing,
          last_checked = now,
          state_electorate = search_state_electorate,
          federal_electorate = get_federal_electorate federal_mapping pc sub\<rparr>)"

text \<open>
  The improved-address script (\<open>wa_bulk_billing_BETTER_ADDRESSES.py\<close>). \<open>if address_text:\<close> is
  false for \<open>None\<close> and for the empty text; then the address becomes
  \<open>f"{search_suburb}, WA {search_postcode}"\<close>.
\<close>

definition get_clinic_details_BETTER_ADDRESSES ::
  "python \<Rightarrow> (string \<rightharpoonup> string) \<Rightarrow> string \<Rightarrow> soup \<Rightarrow> string \<Rightarrow> string \<Rightarrow> string \<Rightarrow> string \<Rightarrow> clinic" where
  "get_clinic_details_BETTER_ADDRESSES py federal_mapping now sp page_url search_postcode search_suburb
       search_state_electorate =
     (let extracted = (case extract_address_better py sp of None \<Rightarrow> [] | Some a \<Rightarrow> a);
          sub = address_suburb extracted search_suburb;
          pc = address_postcode extracted search_postcode;
          address_text = (if extracted \<noteq> [] then extracted else search_suburb @ '', WA '' @ search_postcode);
          billing = classify_billing (lower (get_text sp))
      in \<lparr>name = clinic_name sp,
          address = address_text,
          suburb = sub,
          postcode = pc,
          phone = phone_from_link_or_text labelled_phone_re sp,
          url = page_url,
          is_bulk_billed = fst billing,
          billing_status = snd billing,
          last_checked = now,
          state_electorate = search_state_electorate,
          federal_electorate = get_federal_electorate federal_mapping pc sub\<rparr>)"

section \<open>Example data\<close>

text \<open>A small state table, and clinic records that differ in their url and billing flag.\<close>

definition example_rows :: "state_row list" where
  "example_rows =
     [\<lparr>Electorate = ''Perth'', Suburb = ''Perth'', Postcode = ''6000''\<rparr>,
      \<lparr>Electorate = ''Perth'', Suburb = ''Northbridge'', Postcode = ''6003''\<rparr>,
      \<lparr>Electorate = ''Mount Lawley'', Suburb = ''Highgate '', Postcode = ''6003''\<rparr>]"

definition clinic_number :: "nat \<Rightarrow> clinic" where
  "clinic_number i =
     \<lparr>name = ''Clinic'', address = ''1 Hay Street, Perth WA 6000'', suburb = ''Perth'', postcode = ''6000'',
      phone = ''N/A'', url = ''https://www.healthdirect.gov.au/c/'' @ replicate i (CHR ''x''),
      is_bulk_billed = (i < 23),
      billing_status = (if i < 23 then ''100% Bulk Billed'' else ''Unknown''),
      last_checked = ''2025-01-01 00:00:00'',
      state_electorate = ''Perth'', federal_electorate = ''Perth''\<rparr>"

definition clinics80 :: "clinic list" where
  "clinics80 = map clinic_number [0..<80]"

definition clinics7 :: "clinic list" where
  "clinics7 = map clinic_number [20..<27] @ [clinic_number 21]"


definition example_results :: "clinic list" where
  "example_results = [clinic_number 22, clinic_number 23, clinic_number 22, clinic_number 24]"

definition three_clinics :: "clinic list" where
  "three_clinics = [clinic_number 22, (clinic_number 23)\<lparr>state_electorate := ''Fremantle''\<rparr>, clinic_number 24]"

definition three_clinics_permuted :: "clinic list" where
  "three_clinics_permuted = [(clinic_number 23)\<lparr>state_electorate := ''Fremantle''\<rparr>, clinic_number 24, clinic_number 22]"

text \<open>
  Reference tables with Perth and Fremantle, a library whose \<open>json.loads\<close> always raises, a
  clinic page with an \<open>address\<close> element and a \<open>tel:\<close> link, a clinic page with neither,
  and the records the three builders make of a page found by the search for Perth 6000.
\<close>

definition no_json :: python where
  "no_json = \<lparr>json_loads = (\<lambda>text. None), py_str = (\<lambda>v. [])\<rparr>"

definition example_federal_rows :: "federal_row list" where
  "example_federal_rows =
     [\<lparr>Federal_Electorate = ''Perth'', fSuburb = ''Perth'', fPostcode = ''6000''\<rparr>,
      \<lparr>Federal_Electorate = ''Fremantle'', fSuburb = ''Fremantle'', fPostcode = ''6160''\<rparr>]"

definition fremantle_rows :: "state_row list" where
  "fremantle_rows =
     [\<lparr>Electorate = ''Perth'', Suburb = ''Perth'', Postcode = ''6000''\<rparr>,
      \<lparr>Electorate = ''Fremantle'', Suburb = ''Fremantle'', Postcode = ''6160''\<rparr>]"

definition page_with_address :: soup where
  "page_with_address =
     [Tag ''html'' []
        [Tag ''body'' []
           [Tag ''h1'' [] [Text ''High Street Family Practice''],
            Tag ''address'' [] [Text '' 5 High Street, '', Tag ''br'' [] [], Text ''FREMANTLE  WA 6160 ''],
            Tag ''a'' [(''href'', ''tel:0893001234'')] [Text '' 08 9300 1234 ''],
            Tag ''p'' [] [Text ''Rooms at 5 High St, Fremantle WA 6160''],
            Tag ''p'' [] [Text ''Bulk billing only for concession card holders.'']]]]"

definition page_without_address :: soup where
  "page_without_address =
     [Tag ''html'' []
        [Tag ''body'' []
           [Tag ''h2'' [] [Text ''Hay Street Clinic''],
            Tag ''p'' [] [Text ''Mixed billing - fees apply for some services. Phone: 08 9300 1234'']]]]"

definition record_STATE_AND_FEDERAL :: "soup \<Rightarrow> clinic" where
  "record_STATE_AND_FEDERAL sp =
     get_clinic_details_STATE_AND_FEDERAL (load_federal_mapping example_federal_rows) ''2025-01-01 00:00:00'' sp
       ''https://www.healthdirect.gov.au/c/1'' ''6000'' ''Perth'' ''Perth''"

definition record_BETTER_ADDRESSES :: "soup \<Rightarrow> clinic" where
  "record_BETTER_ADDRESSES sp =
     get_clinic_details_BETTER_ADDRESSES no_json (load_federal_mapping example_federal_rows)
       ''2025-01-01 00:00:00'' sp ''https://www.healthdirect.gov.au/c/1'' ''6000'' ''Perth'' ''Perth''"

definition record_FIXED :: "soup \<Rightarrow> clinic_state_only" where
  "record_FIXED sp =
     get_clinic_details_FIXED ''2025-01-01 00:00:00'' sp ''https://www.healthdirect.gov.au/c/1'' ''6000''
       ''Perth'' ''Perth''"

section \<open>Properties of the resolver\<close>

lemma state_mapping_append_nonempty:
  assumes "\<forall>p es. mapping p = Some es \<longrightarrow> es \<noteq> []"
  shows "\<forall>p es. state_mapping_append mapping row p = Some es \<longrightarrow> es \<noteq> []"
  using assms by (auto simp: state_mapping_append_def)

lemma foldl_state_mapping_nonempty:
  "(\<forall>p es. mapping p = Some es \<longrightarrow> es \<noteq> []) \<Longrightarrow>
   foldl state_mapping_append mapping rows p = Some es \<Longrightarrow> es \<noteq> []"
proof (induction rows arbitrary: mapping)
  case Nil
  then show ?case by simp
next
  case (Cons row rows)
  have "\<forall>p es. state_mapping_append mapping row p = Some es \<longrightarrow> es \<noteq> []"
    using Cons.prems(1) by (rule state_mapping_append_nonempty)
  with Cons.IH Cons.prems(2) show ?case by simp
qed

lemma load_state_mapping_nonempty:
  "load_state_mapping rows p = Some es \<Longrightarrow> es \<noteq> []"
  unfolding load_state_mapping_def
  by (rule foldl_state_mapping_nonempty [where mapping = Map.empty]) simp_all

lemma scan_entries_first:
  "i < length es \<Longrightarrow> strip (lower (entry_suburb (es ! i))) = q \<Longrightarrow>
   (\<forall>j<i. strip (lower (entry_suburb (es ! j))) \<noteq> q) \<Longrightarrow>
   scan_entries es q = Some (entry_electorate (es ! i))"
proof (induction es arbitrary: i)
  case Nil
  then show ?case by simp
next
  case (Cons e es)
  show ?case
  proof (cases i)
    case 0
    with Cons.prems show ?thesis by simp
  next
    case (Suc k)
    have head: "strip (lower (entry_suburb e)) \<noteq> q"
      using Cons.prems(3) Suc by (metis nth_Cons_0 zero_less_Suc)
    have rest: "\<forall>j<k. strip (lower (entry_suburb (es ! j))) \<noteq> q"
      using Cons.prems(3) Suc by (metis Suc_less_eq nth_Cons_Suc)
    have "scan_entries es q = Some (entry_electorate (es ! k))"
      using Cons.IH [of k] Cons.prems(1,2) Suc rest by simp
    with head Suc show ?thesis by simp
  qed
qed

lemma scan_entries_none:
  "(\<forall>e \<in> set es. strip (lower (entry_suburb e)) \<noteq> q) \<Longrightarrow> scan_entries es q = None"
  by (induction es) auto

text \<open>
  C2. For a state table built by the loader: a postcode absent from the table resolves to
  \<open>Unknown\<close>; a postcode present resolves to the electorate of the first entry of its list whose
  suburb, lower-cased and trimmed, equals the lower-cased and trimmed query suburb; and when no
  entry of the list matches, to the electorate of the first entry of the list (which exists,
  since the loader never stores an empty list).
\<close>

theorem resolve_state_policy:
  assumes "state_mapping = load_state_mapping rows"
  shows "(state_mapping pc = None \<longrightarrow>
            get_state_electorate state_mapping pc sub = Inr ''Unknown'')
       \<and> (\<forall>es i. state_mapping pc = Some es \<and> i < length es
              \<and> strip (lower (entry_suburb (es ! i))) = strip (lower sub)
              \<and> (\<forall>j<i. strip (lower (entry_suburb (es ! j))) \<noteq> strip (lower sub))
            \<longrightarrow> get_state_electorate state_mapping pc sub = Inr (entry_electorate (es ! i)))
       \<and> (\<forall>es. state_mapping pc = Some es
              \<and> (\<forall>e \<in> set es. strip (lower (entry_suburb e)) \<noteq> strip (lower sub))
            \<longrightarrow> es \<noteq> [] \<and> get_state_electorate state_mapping pc sub = Inr (entry_electorate (es ! 0)))"
proof (intro conjI allI impI)
  assume "state_mapping pc = None"
  then show "get_state_electorate state_mapping pc sub = Inr ''Unknown''"
    by (simp add: get_state_electorate_def)
next
  fix es i
  assume h: "state_mapping pc = Some es \<and> i < length es
              \<and> strip (lower (entry_suburb (es ! i))) = strip (lower sub)
              \<and> (\<forall>j<i. strip (lower (entry_suburb (es ! j))) \<noteq> strip (lower sub))"
  then have "scan_entries es (strip (lower sub)) = Some (entry_electorate (es ! i))"
    by (intro scan_entries_first) simp_all
  with h show "get_state_electorate state_mapping pc sub = Inr (entry_electorate (es ! i))"
    by (simp add: get_state_electorate_def)
next
  fix es
  assume h: "state_mapping pc = Some es
              \<and> (\<forall>e \<in> set es. strip (lower (entry_suburb e)) \<noteq> strip (lower sub))"
  then show "es \<noteq> []"
    using assms load_state_mapping_nonempty by blast
next
  fix es
  assume h: "state_mapping pc = Some es
              \<and> (\<forall>e \<in> set es. strip (lower (entry_suburb e)) \<noteq> strip (lower sub))"
  then have ne: "es \<noteq> []"
    using assms load_state_mapping_nonempty by blast
  from h have "scan_entries es (strip (lower sub)) = None"
    by (intro scan_entries_none) simp
  with h ne show "get_state_electorate state_mapping pc sub = Inr (entry_electorate (es ! 0))"
    by (cases es) (simp_all add: get_state_electorate_def)
qed

text \<open>
  The table of \<open>example_rows\<close> shows the three cases: postcode 6999 is absent; under 6003 the
  query \<open>" HIGHGATE"\<close> matches the second entry; the query \<open>"Leederville"\<close> matches none and
  falls back to the first entry.
\<close>

theorem resolve_state_policy_witness:
  "load_state_mapping example_rows ''6999'' = None
   \<and> get_state_electorate (load_state_mapping example_rows) ''6999'' ''Perth'' = Inr ''Unknown''
   \<and> load_state_mapping example_rows ''6003''
       = Some [\<lparr>entry_electorate = ''Perth'', entry_suburb = ''Northbridge''\<rparr>,
               \<lparr>entry_electorate = ''Mount Lawley'', entry_suburb = ''Highgate ''\<rparr>]
   \<and> get_state_electorate (load_state_mapping example_rows) ''6003'' '' HIGHGATE'' = Inr ''Mount Lawley''
   \<and> get_state_electorate (load_state_mapping example_rows) ''6003'' ''Leederville'' = Inr ''Perth''"
proof -
  let ?m = "load_state_mapping example_rows"
  let ?es = "[\<lparr>entry_electorate = ''Perth'', entry_suburb = ''Northbridge''\<rparr>,
              \<lparr>entry_electorate = ''Mount Lawley'', entry_suburb = ''Highgate ''\<rparr>]"
  have absent: "?m ''6999'' = None"
    by code_simp
  have present: "?m ''6003'' = Some ?es"
    by code_simp
  have hit: "strip (lower (entry_suburb (?es ! 1))) = strip (lower '' HIGHGATE'')"
    by code_simp
  have first: "strip (lower (entry_suburb (?es ! 0))) \<noteq> strip (lower '' HIGHGATE'')"
    by code_simp
  have miss: "\<forall>e \<in> set ?es. strip (lower (entry_suburb e)) \<noteq> strip (lower ''Leederville'')"
    by code_simp
  note absent_case = resolve_state_policy [OF refl, of example_rows "''6999''" "''Perth''", THEN conjunct1]
  note match_case = resolve_state_policy [OF refl, of example_rows "''6003''" "'' HIGHGATE''",
      THEN conjunct2, THEN conjunct1, rule_format, of ?es 1]
  note fallback_case = resolve_state_policy [OF refl, of example_rows "''6003''" "''Leederville''",
      THEN conjunct2, THEN conjunct2, rule_format, of ?es]
  have a: "get_state_electorate ?m ''6999'' ''Perth'' = Inr ''Unknown''"
    using absent_case absent by (rule mp)
  have "get_state_electorate ?m ''6003'' '' HIGHGATE'' = Inr (entry_electorate (?es ! 1))"
  proof (rule match_case, intro conjI)
    show "?m ''6003'' = Some ?es" by (rule present)
    show "1 < length ?es" by simp
    show "strip (lower (entry_suburb (?es ! 1))) = strip (lower '' HIGHGATE'')" by (rule hit)
    show "\<forall>j<1. strip (lower (entry_suburb (?es ! j))) \<noteq> strip (lower '' HIGHGATE'')"
      using first by simp
  qed
  then have b: "get_state_electorate ?m ''6003'' '' HIGHGATE'' = Inr ''Mount Lawley''"
    by simp
  have "?es \<noteq> [] \<and> get_state_electorate ?m ''6003'' ''Leederville'' = Inr (entry_electorate (?es ! 0))"
    by (rule fallback_case, intro conjI present miss)
  then have c: "get_state_electorate ?m ''6003'' ''Leederville'' = Inr ''Perth''"
    by simp
  show ?thesis
    by (intro conjI absent present a b c)
qed

section \<open>Properties of the floating-point model\<close>

lemma round_half_even_cases:
  "round_half_even y = \<lfloor>y\<rfloor> \<and> y - of_int \<lfloor>y\<rfloor> \<le> 1 / 2
   \<or> round_half_even y = \<lfloor>y\<rfloor> + 1 \<and> 1 / 2 \<le> y - of_int \<lfloor>y\<rfloor>"
  by (auto simp: round_half_even_def Let_def)

lemma round_half_even_nearest: "\<bar>of_int (round_half_even y) - y\<bar> \<le> 1 / 2"
proof -
  have lo: "of_int \<lfloor>y\<rfloor> \<le> y" and hi: "y < of_int \<lfloor>y\<rfloor> + 1"
    by linarith+
  from round_half_even_cases [of y] show ?thesis
  proof
    assume "round_half_even y = \<lfloor>y\<rfloor> \<and> y - of_int \<lfloor>y\<rfloor> \<le> 1 / 2"
    with lo show ?thesis by simp
  next
    assume "round_half_even y = \<lfloor>y\<rfloor> + 1 \<and> 1 / 2 \<le> y - of_int \<lfloor>y\<rfloor>"
    with hi show ?thesis by simp
  qed
qed

lemma round_half_even_tie:
  "y - of_int \<lfloor>y\<rfloor> = 1 / 2 \<Longrightarrow> even (round_half_even y)"
  by (simp add: round_half_even_def Let_def)

lemma round_half_even_between:
  assumes "of_int a \<le> y" and "y \<le> of_int b"
  shows "a \<le> round_half_even y \<and> round_half_even y \<le> b"
proof -
  have fa: "a \<le> \<lfloor>y\<rfloor>"
    using assms(1) by (simp add: le_floor_iff)
  show ?thesis
  proof (cases "y = of_int \<lfloor>y\<rfloor>")
    case True
    then have r: "round_half_even y = \<lfloor>y\<rfloor>"
      by (simp add: round_half_even_def Let_def)
    have "of_int \<lfloor>y\<rfloor> \<le> (of_int b :: rat)"
      using True assms(2) by simp
    then have "\<lfloor>y\<rfloor> \<le> b" by simp
    with fa r show ?thesis by simp
  next
    case False
    have "of_int \<lfloor>y\<rfloor> \<le> y" by linarith
    with False have "of_int \<lfloor>y\<rfloor> < y" by (metis order_le_less)
    with assms(2) have "of_int \<lfloor>y\<rfloor> < (of_int b :: rat)" by linarith
    then have "\<lfloor>y\<rfloor> < b" by simp
    moreover have "round_half_even y = \<lfloor>y\<rfloor> \<or> round_half_even y = \<lfloor>y\<rfloor> + 1"
      using round_half_even_cases [of y] by blast
    ultimately show ?thesis using fa by auto
  qed
qed

lemma recip_le: "0 < (x::rat) \<Longrightarrow> 0 < p \<Longrightarrow> 1 / x \<le> p \<Longrightarrow> 1 / p \<le> x"
  by (simp add: pos_divide_le_eq mult.commute)

lemma recip_less: "0 < (x::rat) \<Longrightarrow> 0 < q \<Longrightarrow> q < 1 / x \<Longrightarrow> x < 1 / q"
  by (simp add: pos_less_divide_eq mult.commute)

lemma powi_neg: "0 < k \<Longrightarrow> (2::rat) powi (- k) = 1 / 2 ^ nat k"
  by (simp add: power_int_def power_one_over)

lemma powi_neg_succ: "0 < k \<Longrightarrow> (2::rat) powi (- k + 1) = 1 / 2 ^ nat (k - 1)"
proof (cases "k = 1")
  case True
  then show ?thesis by simp
next
  case False
  assume "0 < k"
  with False have "- k + 1 < 0" by simp
  moreover have "nat (- (- k + 1)) = nat (k - 1)" by simp
  ultimately show ?thesis by (simp add: power_int_def power_one_over)
qed

lemma exponent_bounds:
  assumes "0 < x"
  shows "2 powi (exponent x) \<le> x \<and> x < 2 powi (exponent x + 1)"
proof (cases "1 \<le> x")
  case True
  let ?n = "\<lfloor>x\<rfloor>"
  have n: "0 < ?n" using True by simp
  have b: "2 ^ nat (bitlen ?n - 1) \<le> ?n \<and> ?n < 2 ^ nat (bitlen ?n)"
    using n by (rule bitlen_bounds)
  have bl: "0 < bitlen ?n" using b n by (cases "0 < bitlen ?n") auto
  have e: "exponent x = bitlen ?n - 1"
    using True by (simp add: exponent_def)
  have p1: "(2::rat) powi (bitlen ?n - 1) = 2 ^ nat (bitlen ?n - 1)"
    using bl by (simp add: power_int_def)
  have p2: "(2::rat) powi (bitlen ?n) = 2 ^ nat (bitlen ?n)"
    using bl by (simp add: power_int_def)
  have "(2::rat) ^ nat (bitlen ?n - 1) \<le> of_int ?n"
    using b by (metis of_int_le_iff of_int_numeral of_int_power)
  also have "\<dots> \<le> x" by linarith
  finally have lo: "(2::rat) ^ nat (bitlen ?n - 1) \<le> x" .
  have "?n + 1 \<le> 2 ^ nat (bitlen ?n)" using b by simp
  then have "(of_int (?n + 1) :: rat) \<le> of_int (2 ^ nat (bitlen ?n))"
    by (simp only: of_int_le_iff)
  then have "(of_int ?n :: rat) + 1 \<le> 2 ^ nat (bitlen ?n)" by simp
  moreover have "x < of_int ?n + 1" by linarith
  ultimately have hi: "x < 2 ^ nat (bitlen ?n)" by linarith
  show ?thesis using lo hi e p1 p2 by simp
next
  case False
  then have x1: "x < 1" by simp
  let ?y = "1 / x"
  let ?m = "\<lceil>?y\<rceil> - 1"
  have y1: "1 < ?y" using assms x1 by simp
  then have "1 < \<lceil>?y\<rceil>" by (simp add: less_ceiling_iff)
  then have m: "0 < ?m" by simp
  have b: "2 ^ nat (bitlen ?m - 1) \<le> ?m \<and> ?m < 2 ^ nat (bitlen ?m)"
    using m by (rule bitlen_bounds)
  have bl: "0 < bitlen ?m" using b m by (cases "0 < bitlen ?m") auto
  have e: "exponent x = - bitlen ?m"
    using False by (simp add: exponent_def)
  have my: "of_int ?m < ?y" "?y \<le> of_int ?m + 1"
    by linarith+
  have "?m + 1 \<le> 2 ^ nat (bitlen ?m)" using b by simp
  then have "(of_int (?m + 1) :: rat) \<le> of_int (2 ^ nat (bitlen ?m))"
    by (simp only: of_int_le_iff)
  then have "(of_int ?m :: rat) + 1 \<le> 2 ^ nat (bitlen ?m)" by simp
  with my(2) have yhi: "?y \<le> 2 ^ nat (bitlen ?m)" by linarith
  have "(2::rat) ^ nat (bitlen ?m - 1) \<le> of_int ?m"
    using b by (metis of_int_le_iff of_int_numeral of_int_power)
  with my(1) have ylo: "(2::rat) ^ nat (bitlen ?m - 1) < ?y" by linarith
  have lo: "1 / 2 ^ nat (bitlen ?m) \<le> x"
    using assms _ yhi by (rule recip_le) simp
  have hi: "x < 1 / 2 ^ nat (bitlen ?m - 1)"
    using assms _ ylo by (rule recip_less) simp
  have p1: "(2::rat) powi (- bitlen ?m) = 1 / 2 ^ nat (bitlen ?m)"
    using bl by (rule powi_neg)
  have p2: "(2::rat) powi (- bitlen ?m + 1) = 1 / 2 ^ nat (bitlen ?m - 1)"
    using bl by (rule powi_neg_succ)
  show ?thesis using lo hi e p1 p2 by simp
qed


text \<open>
  \<open>float_round\<close> gives a number with a significand of 53 bits that is within half a unit in
  the last place of its argument; on a tie the significand is even.
\<close>

lemma float_round_nearest:
  assumes "0 < x"
  shows "\<exists>m. float_round x = of_int m * 2 powi (exponent x - 52)
           \<and> 2 ^ 52 \<le> m \<and> m \<le> 2 ^ 53
           \<and> \<bar>float_round x - x\<bar> \<le> 2 powi (exponent x - 52) / 2
           \<and> (\<bar>float_round x - x\<bar> = 2 powi (exponent x - 52) / 2 \<longrightarrow> even m)"
proof -
  define e where "e = exponent x"
  define u :: rat where "u = 2 powi (e - 52)"
  define m where "m = round_half_even (x / u)"
  have u: "0 < u" by (simp add: u_def)
  have b: "2 powi e \<le> x" "x < 2 powi (e + 1)"
    using exponent_bounds [OF assms] by (simp_all add: e_def)
  have e1: "(2::rat) powi e = 2 ^ 52 * u"
    by (simp add: u_def power_int_diff)
  have e2: "(2::rat) powi (e + 1) = 2 ^ 53 * u"
    by (simp add: u_def power_int_diff power_int_add)
  have lo: "2 ^ 52 \<le> x / u"
    using b(1) u unfolding e1 by (simp add: pos_le_divide_eq)
  have hi: "x / u \<le> 2 ^ 53"
    using b(2) u unfolding e2 by (simp add: pos_divide_le_eq)
  have "of_int (2 ^ 52) \<le> x / u" "x / u \<le> of_int (2 ^ 53)"
    using lo hi by simp_all
  then have mb: "2 ^ 52 \<le> m \<and> m \<le> 2 ^ 53"
    unfolding m_def by (rule round_half_even_between)
  have fr: "float_round x = of_int m * u"
    using assms by (simp add: float_round_def Let_def m_def u_def e_def)
  have d: "float_round x - x = (of_int m - x / u) * u"
    using u by (simp add: fr algebra_simps)
  have ad: "\<bar>float_round x - x\<bar> = \<bar>of_int m - x / u\<bar> * u"
    using u by (simp add: d abs_mult)
  have near: "\<bar>of_int m - x / u\<bar> \<le> 1 / 2"
    unfolding m_def by (rule round_half_even_nearest)
  have err: "\<bar>float_round x - x\<bar> \<le> u / 2"
    using near u unfolding ad by (simp add: pos_le_divide_eq [symmetric] mult.commute)
  have tie: "\<bar>float_round x - x\<bar> = u / 2 \<longrightarrow> even m"
  proof
    assume "\<bar>float_round x - x\<bar> = u / 2"
    then have h: "\<bar>of_int m - x / u\<bar> = 1 / 2"
      using u unfolding ad by simp
    define y where "y = x / u"
    define f :: rat where "f = of_int \<lfloor>y\<rfloor>"
    have fl: "f \<le> y" "y < f + 1"
      unfolding f_def by linarith+
    have hy: "\<bar>of_int m - y\<bar> = 1 / 2"
      using h by (simp add: y_def)
    have "of_int m = f \<and> y - f \<le> 1 / 2 \<or> of_int m = f + 1 \<and> 1 / 2 \<le> y - f"
      using round_half_even_cases [of y] unfolding m_def y_def [symmetric] f_def by auto
    then have "y - f = 1 / 2"
    proof
      assume "of_int m = f \<and> y - f \<le> 1 / 2"
      with hy fl show ?thesis by linarith
    next
      assume "of_int m = f + 1 \<and> 1 / 2 \<le> y - f"
      with hy fl show ?thesis by linarith
    qed
    then have "x / u - of_int \<lfloor>x / u\<rfloor> = 1 / 2"
      by (simp add: y_def f_def)
    then show "even m"
      unfolding m_def by (rule round_half_even_tie)
  qed
  show ?thesis
    using fr mb err tie unfolding u_def e_def by blast
qed

section \<open>Properties of deduplication and aggregation\<close>

subsection \<open>Deduplication\<close>

lemma unique_results_loop_map_of:
  "map_of (unique_results_loop u cs) k =
     (case map_of u k of Some c \<Rightarrow> Some c | None \<Rightarrow> find (\<lambda>c. url c = k) cs)"
proof (induction cs arbitrary: u)
  case Nil
  then show ?case by (simp split: option.splits)
next
  case (Cons c cs)
  show ?case
    by (simp add: Cons.IH map_add_def split: option.splits)
qed

lemma unique_results_loop_keys:
  "set (map fst (unique_results_loop u cs)) = set (map fst u) \<union> url ` set cs"
proof (induction cs arbitrary: u)
  case Nil
  then show ?case by simp
next
  case (Cons c cs)
  show ?case
  proof (cases "map_of u (url c) = None")
    case True
    with Cons.IH [of "u @ [(url c, c)]"] show ?thesis by auto
  next
    case False
    then have "url c \<in> fst ` set u"
      by (simp add: map_of_eq_None_iff)
    with False Cons.IH [of u] show ?thesis by auto
  qed
qed

lemma unique_results_loop_distinct:
  "distinct (map fst u) \<Longrightarrow> distinct (map fst (unique_results_loop u cs))"
proof (induction cs arbitrary: u)
  case Nil
  then show ?case by simp
next
  case (Cons c cs)
  show ?case
  proof (cases "map_of u (url c) = None")
    case True
    then have "url c \<notin> fst ` set u"
      by (simp add: map_of_eq_None_iff)
    with Cons.prems have "distinct (map fst (u @ [(url c, c)]))"
      by simp
    with Cons.IH True show ?thesis by simp
  next
    case False
    then obtain y where "map_of u (url c) = Some y" by auto
    with Cons show ?thesis by simp
  qed
qed

lemma unique_results_loop_entries:
  "(\<forall>(k, c) \<in> set u. url c = k \<and> c \<in> S) \<Longrightarrow> set cs \<subseteq> S \<Longrightarrow>
   (\<forall>(k, c) \<in> set (unique_results_loop u cs). url c = k \<and> c \<in> S)"
proof (induction cs arbitrary: u)
  case Nil
  then show ?case by simp
next
  case (Cons c cs)
  have tl: "set cs \<subseteq> S" and hd: "c \<in> S"
    using Cons.prems(2) by simp_all
  show ?case
  proof (cases "map_of u (url c) = None")
    case True
    have "\<forall>(k, d) \<in> set (u @ [(url c, c)]). url d = k \<and> d \<in> S"
      using Cons.prems(1) hd by simp
    from Cons.IH [OF this tl] True show ?thesis by simp
  next
    case False
    then obtain y where "map_of u (url c) = Some y" by auto
    with Cons.IH [OF Cons.prems(1) tl] show ?thesis by simp
  qed
qed

lemma find_values_map_of:
  "(\<forall>(k, c) \<in> set al. url c = k) \<Longrightarrow> find (\<lambda>d. url d = k) (map snd al) = map_of al k"
  by (induction al) auto

lemma remove_duplicates_urls:
  "map url (remove_duplicates rs) = map fst (unique_results_loop [] rs)"
proof -
  have "\<forall>(k, c) \<in> set (unique_results_loop [] rs). url c = k \<and> c \<in> set rs"
    by (rule unique_results_loop_entries) simp_all
  then show ?thesis
    by (auto simp: remove_duplicates_def)
qed

lemma remove_duplicates_distinct: "distinct (map url (remove_duplicates rs))"
  by (simp add: remove_duplicates_urls unique_results_loop_distinct)

lemma remove_duplicates_url_set: "url ` set (remove_duplicates rs) = url ` set rs"
proof -
  have "set (map url (remove_duplicates rs)) = url ` set rs"
    unfolding remove_duplicates_urls unique_results_loop_keys by simp
  then show ?thesis by simp
qed

lemma remove_duplicates_length: "length (remove_duplicates rs) = card (url ` set rs)"
proof -
  have "card (set (map url (remove_duplicates rs))) = length (map url (remove_duplicates rs))"
    using remove_duplicates_distinct by (rule distinct_card)
  then show ?thesis
    using remove_duplicates_url_set [of rs] by simp
qed

lemma remove_duplicates_find:
  "find (\<lambda>d. url d = k) (remove_duplicates rs) = find (\<lambda>c. url c = k) rs"
proof -
  have "\<forall>(k, c) \<in> set (unique_results_loop [] rs). url c = k \<and> c \<in> set rs"
    by (rule unique_results_loop_entries) simp_all
  then have "\<forall>(k, c) \<in> set (unique_results_loop [] rs). url c = k"
    by auto
  then have "find (\<lambda>d. url d = k) (map snd (unique_results_loop [] rs)) = map_of (unique_results_loop [] rs) k"
    by (rule find_values_map_of)
  then show ?thesis
    by (simp add: remove_duplicates_def unique_results_loop_map_of)
qed

lemma remove_duplicates_subset: "set (remove_duplicates rs) \<subseteq> set rs"
proof -
  have "\<forall>(k, c) \<in> set (unique_results_loop [] rs). url c = k \<and> c \<in> set rs"
    by (rule unique_results_loop_entries) simp_all
  then show ?thesis
    by (auto simp: remove_duplicates_def)
qed

lemma unique_results_loop_distinct_input:
  "distinct (map url cs) \<Longrightarrow> url ` set cs \<inter> fst ` set u = {} \<Longrightarrow>
   unique_results_loop u cs = u @ map (\<lambda>c. (url c, c)) cs"
proof (induction cs arbitrary: u)
  case Nil
  then show ?case by simp
next
  case (Cons c cs)
  have none: "map_of u (url c) = None"
    using Cons.prems(2) by (auto simp: map_of_eq_None_iff)
  have "url ` set cs \<inter> fst ` set (u @ [(url c, c)]) = {}"
    using Cons.prems by auto
  with Cons.IH [of "u @ [(url c, c)]"] Cons.prems(1) none show ?case
    by simp
qed

lemma remove_duplicates_id: "distinct (map url rs) \<Longrightarrow> remove_duplicates rs = rs"
  by (simp add: remove_duplicates_def unique_results_loop_distinct_input comp_def)

text \<open>
  C3. The deduplication step of \<open>save_results\<close> leaves pairwise distinct urls; the number of
  records kept, which is also the total of the summary, is the number of distinct urls of the
  input; and for every url the record kept is the first record of the input with that url,
  whatever the other fields of later records with the same url are.
\<close>

theorem dedup_first_seen:
  "distinct (map url (fst (save_results now rs)))
   \<and> length (fst (save_results now rs)) = card (url ` set rs)
   \<and> total_clinics (summary (snd (save_results now rs))) = card (url ` set rs)
   \<and> (\<forall>u. find (\<lambda>c. url c = u) (fst (save_results now rs)) = find (\<lambda>c. url c = u) rs)"
  by (simp add: save_results_def Let_def remove_duplicates_distinct remove_duplicates_length
      remove_duplicates_find)

text \<open>Four records, the third repeating the url of the first: three are kept, in first-seen order.\<close>

theorem dedup_first_seen_witness:
  "map url (fst (save_results ''2025-01-01 00:00:00'' example_results))
     = [url (clinic_number 22), url (clinic_number 23), url (clinic_number 24)]
   \<and> length (fst (save_results ''2025-01-01 00:00:00'' example_results)) = 3"
proof -
  have u: "url ` set example_results = {url (clinic_number 22), url (clinic_number 23), url (clinic_number 24)}"
    by (simp add: example_results_def insert_commute)
  have d: "card {url (clinic_number 22), url (clinic_number 23), url (clinic_number 24)} = 3"
    by (simp add: clinic_number_def)
  have m: "map url (fst (save_results ''2025-01-01 00:00:00'' example_results))
     = [url (clinic_number 22), url (clinic_number 23), url (clinic_number 24)]"
    by code_simp
  from dedup_first_seen [of "''2025-01-01 00:00:00''" example_results] u d m show ?thesis
    by simp
qed

subsection \<open>Grouping\<close>

lemma map_of_update_values:
  "map_of (map (\<lambda>(k', vs). if k' = k then (k', f vs) else (k', vs)) d) k' =
     (if k' = k then map_option f (map_of d k) else map_of d k')"
  by (induction d) auto

lemma dd_append_map_of:
  "map_of (dd_append d k v) k' =
     (if k' = k then Some ((case map_of d k of None \<Rightarrow> [] | Some vs \<Rightarrow> vs) @ [v]) else map_of d k')"
proof (cases "map_of d k")
  case None
  then show ?thesis
    by (auto simp: dd_append_def map_add_def split: option.splits)
next
  case (Some vs)
  have "map_of (map (\<lambda>(k', vs). if k' = k then (k', vs @ [v]) else (k', vs)) d) k' =
     (if k' = k then map_option (\<lambda>vs. vs @ [v]) (map_of d k) else map_of d k')"
    by (rule map_of_update_values)
  with Some show ?thesis
    by (simp add: dd_append_def)
qed

lemma dd_append_keys:
  "map fst (dd_append d k v) = (if k \<in> fst ` set d then map fst d else map fst d @ [k])"
proof (cases "map_of d k")
  case None
  then have "k \<notin> fst ` set d"
    by (simp add: map_of_eq_None_iff)
  with None show ?thesis
    by (simp add: dd_append_def)
next
  case (Some vs)
  then have "k \<in> fst ` set d"
    by (metis map_of_eq_None_iff option.distinct(1))
  moreover have "map fst (map (\<lambda>(k', vs). if k' = k then (k', vs @ [v]) else (k', vs)) d) = map fst d"
    by (induction d) auto
  ultimately show ?thesis
    using Some by (simp add: dd_append_def)
qed

lemma dd_append_key_set: "fst ` set (dd_append d k v) = insert k (fst ` set d)"
proof -
  have "set (map fst (dd_append d k v)) = insert k (fst ` set d)"
    unfolding dd_append_keys by auto
  then show ?thesis by simp
qed

lemma group_map_of:
  "map_of (foldl (\<lambda>d c. dd_append d (key c) c) d0 rs) k =
     (if \<exists>c \<in> set rs. key c = k
      then Some ((case map_of d0 k of None \<Rightarrow> [] | Some vs \<Rightarrow> vs) @ filter (\<lambda>c. key c = k) rs)
      else map_of d0 k)"
proof (induction rs arbitrary: d0)
  case Nil
  then show ?case by simp
next
  case (Cons r rs)
  show ?case
    by (simp add: Cons.IH dd_append_map_of split: option.splits)
qed

lemma group_keys_set:
  "fst ` set (foldl (\<lambda>d c. dd_append d (key c) c) d0 rs) = fst ` set d0 \<union> key ` set rs"
proof (induction rs arbitrary: d0)
  case Nil
  then show ?case by simp
next
  case (Cons r rs)
  show ?case
    by (simp add: Cons.IH dd_append_key_set)
qed

lemma group_keys_distinct:
  "distinct (map fst d0) \<Longrightarrow> distinct (map fst (foldl (\<lambda>d c. dd_append d (key c) c) d0 rs))"
proof (induction rs arbitrary: d0)
  case Nil
  then show ?case by simp
next
  case (Cons r rs)
  have "distinct (map fst (dd_append d0 (key r) r))"
    using Cons.prems by (simp add: dd_append_keys)
  with Cons.IH show ?case by simp
qed

lemma organize_by_state:
  "by_state (foldl organize_step org rs) =
     foldl (\<lambda>d c. dd_append d (state_electorate c) c) (by_state org) rs"
  by (induction rs arbitrary: org) (simp_all add: organize_step_def)

lemma organize_by_federal:
  "by_federal (foldl organize_step org rs) =
     foldl (\<lambda>d c. dd_append d (federal_electorate c) c) (by_federal org) rs"
  by (induction rs arbitrary: org) (simp_all add: organize_step_def)

lemma organize_bulk_billed_count:
  "bulk_billed_count (foldl organize_step org rs) =
     bulk_billed_count org + length (filter is_bulk_billed rs)"
  by (induction rs arbitrary: org) (simp_all add: organize_step_def)

lemma by_state_lookup:
  "map_of (by_state (organize rs)) e =
     (if \<exists>c \<in> set rs. state_electorate c = e then Some (filter (\<lambda>c. state_electorate c = e) rs) else None)"
  by (simp add: organize_def organize_by_state group_map_of)

lemma by_federal_lookup:
  "map_of (by_federal (organize rs)) e =
     (if \<exists>c \<in> set rs. federal_electorate c = e then Some (filter (\<lambda>c. federal_electorate c = e) rs) else None)"
  by (simp add: organize_def organize_by_federal group_map_of)

lemma by_state_distinct: "distinct (map fst (by_state (organize rs)))"
  by (simp add: organize_def organize_by_state group_keys_distinct)

lemma by_federal_distinct: "distinct (map fst (by_federal (organize rs)))"
  by (simp add: organize_def organize_by_federal group_keys_distinct)

lemma by_state_keys: "fst ` set (by_state (organize rs)) = state_electorate ` set rs"
  by (simp add: organize_def organize_by_state group_keys_set)

lemma by_federal_keys: "fst ` set (by_federal (organize rs)) = federal_electorate ` set rs"
  by (simp add: organize_def organize_by_federal group_keys_set)

lemma by_state_length: "length (by_state (organize rs)) = card (state_electorate ` set rs)"
  using distinct_card [OF by_state_distinct, of rs] by (simp add: by_state_keys)

lemma by_federal_length: "length (by_federal (organize rs)) = card (federal_electorate ` set rs)"
  using distinct_card [OF by_federal_distinct, of rs] by (simp add: by_federal_keys)

lemma create_stats_member:
  "(e, st) \<in> set (create_stats d) \<Longrightarrow> \<exists>clinics. (e, clinics) \<in> set d \<and> st = electorate_stats clinics"
  by (auto simp: create_stats_def)

lemma create_stats_map_of:
  "map_of (create_stats d) e = map_option electorate_stats (map_of d e)"
  by (induction d) (auto simp: create_stats_def)

lemma bucket_stats:
  assumes "(e, st) \<in> set (create_stats d)" and "distinct (map fst d)"
    and "\<And>e'. map_of d e' = (if \<exists>c \<in> set rs. key c = e' then Some (filter (\<lambda>c. key c = e') rs) else None)"
  shows "total_clinics st = length (filter (\<lambda>c. key c = e) rs)
       \<and> bulk_billed_clinics st = length (filter (\<lambda>c. key c = e \<and> is_bulk_billed c) rs)
       \<and> 0 < total_clinics st
       \<and> percentage st = round1 (float_mul (float_truediv (bulk_billed_clinics st) (total_clinics st)) 100)"
proof -
  obtain clinics where mem: "(e, clinics) \<in> set d" and st: "st = electorate_stats clinics"
    using assms(1) create_stats_member by blast
  have "map_of d e = Some clinics"
    using mem assms(2) by simp
  with assms(3) [of e] have ex: "\<exists>c \<in> set rs. key c = e"
    and cl: "clinics = filter (\<lambda>c. key c = e) rs"
    by (auto split: if_splits)
  from ex cl have ne: "clinics \<noteq> []"
    by (auto simp: filter_empty_conv)
  have bb: "filter is_bulk_billed clinics = filter (\<lambda>c. key c = e \<and> is_bulk_billed c) rs"
    unfolding cl by (simp add: conj_commute)
  show ?thesis
    using ne bb cl st by (simp add: electorate_stats_def Let_def)
qed

lemma seven_three:
  "length clinics = 7 \<Longrightarrow> length (filter is_bulk_billed clinics) = 3 \<Longrightarrow>
   percentage (electorate_stats clinics) = 429 / 10"
proof -
  assume a: "length clinics = 7" and b: "length (filter is_bulk_billed clinics) = 3"
  have v: "round1 (float_mul (float_truediv 3 7) 100) = 429 / 10"
    by code_simp
  from a have "clinics \<noteq> []" by auto
  with a b v show ?thesis
    by (simp add: electorate_stats_def Let_def)
qed

lemma url_inj: "url (clinic_number i) = url (clinic_number j) \<Longrightarrow> i = j"
  by (auto simp: clinic_number_def dest: arg_cong [where f = length])

lemma clinics80_distinct: "distinct (map url clinics80)"
  by (auto simp: clinics80_def distinct_map inj_on_def dest: url_inj)

lemma clinics80_bulk: "length (filter is_bulk_billed clinics80) = 23"
proof -
  have "[0..<80] = [0..<23] @ [23..<80]"
    using upt_add_eq_append [of 0 23 57] by simp
  then have "filter (\<lambda>i. i < 23) [0..<80] = [0..<23]"
    by simp
  moreover have "filter is_bulk_billed clinics80 = map clinic_number (filter (\<lambda>i. i < 23) [0..<80])"
    by (simp add: clinics80_def filter_map comp_def clinic_number_def)
  ultimately show ?thesis by simp
qed

lemma clinics80_stats:
  "map_of (state_electorate_stats (snd (save_results now clinics80))) ''Perth''
    = Some \<lparr>total_clinics = 80, bulk_billed_clinics = 23, percentage = 287 / 10\<rparr>"
proof -
  have v: "round1 (float_mul (float_truediv 23 80) 100) = 287 / 10"
    by code_simp
  have all: "filter (\<lambda>c. state_electorate c = ''Perth'') clinics80 = clinics80"
    by (simp add: clinics80_def clinic_number_def filter_map comp_def)
  have ex: "\<exists>c \<in> set clinics80. state_electorate c = ''Perth''"
    by (auto simp: clinics80_def clinic_number_def intro: exI [of _ 0])
  have len: "length clinics80 = 80"
    by (simp add: clinics80_def)
  have ne: "clinics80 \<noteq> []"
    using len by auto
  have "map_of (by_state (organize clinics80)) ''Perth'' = Some clinics80"
    using ex all by (simp add: by_state_lookup)
  then show ?thesis
    using clinics80_distinct clinics80_bulk len ne v
    by (simp add: save_results_def Let_def remove_duplicates_id create_stats_map_of
        electorate_stats_def)
qed


text \<open>
  C4, as the code has it. For every bucket of the state statistics and of the federal statistics:
  the total is the number of deduplicated records of that district, the bulk-billed count is the
  number of those with \<open>is_bulk_billed\<close>, the total is positive (so the division is defined),
  and the percentage is Python's floating-point value of
  \<open>round(bulk_billed / total * 100, 1)\<close>: the quotient rounded to binary64, the product with
  100 rounded to binary64, and that number rounded to one decimal. For 3 of 7 it is 42.9.
\<close>

theorem bucket_statistics:
  "(\<forall>(e, st) \<in> set (state_electorate_stats (snd (save_results now rs))).
       total_clinics st = length (filter (\<lambda>c. state_electorate c = e) (fst (save_results now rs)))
     \<and> bulk_billed_clinics st =
         length (filter (\<lambda>c. state_electorate c = e \<and> is_bulk_billed c) (fst (save_results now rs)))
     \<and> 0 < total_clinics st
     \<and> percentage st = round1 (float_mul (float_truediv (bulk_billed_clinics st) (total_clinics st)) 100))
 \<and> (\<forall>(e, st) \<in> set (federal_electorate_stats (snd (save_results now rs))).
       total_clinics st = length (filter (\<lambda>c. federal_electorate c = e) (fst (save_results now rs)))
     \<and> bulk_billed_clinics st =
         length (filter (\<lambda>c. federal_electorate c = e \<and> is_bulk_billed c) (fst (save_results now rs)))
     \<and> 0 < total_clinics st
     \<and> percentage st = round1 (float_mul (float_truediv (bulk_billed_clinics st) (total_clinics st)) 100))
 \<and> round1 (float_mul (float_truediv 3 7) 100) = 429 / 10"
proof (intro conjI)
  let ?results = "remove_duplicates rs"
  show "\<forall>(e, st) \<in> set (state_electorate_stats (snd (save_results now rs))).
       total_clinics st = length (filter (\<lambda>c. state_electorate c = e) (fst (save_results now rs)))
     \<and> bulk_billed_clinics st =
         length (filter (\<lambda>c. state_electorate c = e \<and> is_bulk_billed c) (fst (save_results now rs)))
     \<and> 0 < total_clinics st
     \<and> percentage st = round1 (float_mul (float_truediv (bulk_billed_clinics st) (total_clinics st)) 100)"
  proof (clarify)
    fix e st
    assume "(e, st) \<in> set (state_electorate_stats (snd (save_results now rs)))"
    then have mem: "(e, st) \<in> set (create_stats (by_state (organize ?results)))"
      by (simp add: save_results_def Let_def)
    from bucket_stats [OF mem by_state_distinct by_state_lookup]
    show "total_clinics st = length (filter (\<lambda>c. state_electorate c = e) (fst (save_results now rs)))
     \<and> bulk_billed_clinics st =
         length (filter (\<lambda>c. state_electorate c = e \<and> is_bulk_billed c) (fst (save_results now rs)))
     \<and> 0 < total_clinics st
     \<and> percentage st = round1 (float_mul (float_truediv (bulk_billed_clinics st) (total_clinics st)) 100)"
      unfolding save_results_def Let_def fst_conv by blast
  qed
  show "\<forall>(e, st) \<in> set (federal_electorate_stats (snd (save_results now rs))).
       total_clinics st = length (filter (\<lambda>c. federal_electorate c = e) (fst (save_results now rs)))
     \<and> bulk_billed_clinics st =
         length (filter (\<lambda>c. federal_electorate c = e \<and> is_bulk_billed c) (fst (save_results now rs)))
     \<and> 0 < total_clinics st
     \<and> percentage st = round1 (float_mul (float_truediv (bulk_billed_clinics st) (total_clinics st)) 100)"
  proof (clarify)
    fix e st
    assume "(e, st) \<in> set (federal_electorate_stats (snd (save_results now rs)))"
    then have mem: "(e, st) \<in> set (create_stats (by_federal (organize ?results)))"
      by (simp add: save_results_def Let_def)
    from bucket_stats [OF mem by_federal_distinct by_federal_lookup]
    show "total_clinics st = length (filter (\<lambda>c. federal_electorate c = e) (fst (save_results now rs)))
     \<and> bulk_billed_clinics st =
         length (filter (\<lambda>c. federal_electorate c = e \<and> is_bulk_billed c) (fst (save_results now rs)))
     \<and> 0 < total_clinics st
     \<and> percentage st = round1 (float_mul (float_truediv (bulk_billed_clinics st) (total_clinics st)) 100)"
      unfolding save_results_def Let_def fst_conv by blast
  qed
  show "round1 (float_mul (float_truediv 3 7) 100) = 429 / 10"
    by code_simp
qed

text \<open>Eight records of one district, one of them a duplicate, three of the seven kept bulk-billed.\<close>

theorem bucket_statistics_witness:
  "(''Perth'', \<lparr>total_clinics = 7, bulk_billed_clinics = 3, percentage = 429 / 10\<rparr>)
      \<in> set (state_electorate_stats (snd (save_results ''2025-01-01 00:00:00'' clinics7)))
   \<and> length (filter (\<lambda>c. state_electorate c = ''Perth'') (fst (save_results ''2025-01-01 00:00:00'' clinics7))) = 7
   \<and> length (filter (\<lambda>c. state_electorate c = ''Perth'' \<and> is_bulk_billed c)
        (fst (save_results ''2025-01-01 00:00:00'' clinics7))) = 3
   \<and> round1 (float_mul (float_truediv 3 7) 100) = 429 / 10"
proof -
  let ?st = "\<lparr>total_clinics = 7, bulk_billed_clinics = 3, percentage = 429 / 10\<rparr>"
  have m: "(''Perth'', ?st) \<in> set (state_electorate_stats (snd (save_results ''2025-01-01 00:00:00'' clinics7)))"
    by code_simp
  from bucket_statistics [of "''2025-01-01 00:00:00''" clinics7, THEN conjunct1, rule_format, OF m]
  show ?thesis
    using m by simp
qed

text \<open>
  Computed over exact rationals, 23 of 80 is 28.75 percent, which rounds to 28.8 (ties to even
  and ties away from zero agree here). The code computes in binary64: \<open>23 / 80 * 100\<close> is
  28.749999999999996..., and the percentage stored is 28.7.
\<close>

theorem percentage_not_exact_rational:
  "map_of (state_electorate_stats (snd (save_results ''2025-01-01 00:00:00'' clinics80))) ''Perth''
     = Some \<lparr>total_clinics = 80, bulk_billed_clinics = 23, percentage = 287 / 10\<rparr>
   \<and> round1 (23 / 80 * 100) = 288 / 10"
proof
  show "map_of (state_electorate_stats (snd (save_results ''2025-01-01 00:00:00'' clinics80))) ''Perth''
     = Some \<lparr>total_clinics = 80, bulk_billed_clinics = 23, percentage = 287 / 10\<rparr>"
    by (rule clinics80_stats)
  show "round1 (23 / 80 * 100) = 288 / 10"
    by code_simp
qed

subsection \<open>Order independence\<close>

lemma filter_length_mset:
  "mset xs = mset ys \<Longrightarrow> length (filter P xs) = length (filter P ys)"
  by (metis mset_filter size_mset)

lemma electorate_stats_perm:
  assumes "mset rs' = mset rs"
  shows "electorate_stats (filter P rs') = electorate_stats (filter P rs)"
proof -
  have a: "length (filter P rs') = length (filter P rs)"
    using assms by (rule filter_length_mset)
  have b: "length (filter (\<lambda>c. P c \<and> is_bulk_billed c) rs') = length (filter (\<lambda>c. P c \<and> is_bulk_billed c) rs)"
    using assms by (rule filter_length_mset)
  have c: "(filter P rs' = []) = (filter P rs = [])"
    using a by (metis length_0_conv)
  show ?thesis
    using a b c by (simp add: electorate_stats_def Let_def conj_commute)
qed

lemma stats_lookup_perm:
  assumes "mset rs' = mset rs"
    and "\<And>xs e. map_of (d xs) e = (if \<exists>c \<in> set xs. key c = e then Some (filter (\<lambda>c. key c = e) xs) else None)"
  shows "map_of (create_stats (d rs')) = map_of (create_stats (d rs))"
proof
  fix e
  have s: "set rs' = set rs"
    using assms(1) by (rule mset_eq_setD)
  show "map_of (create_stats (d rs')) e = map_of (create_stats (d rs)) e"
    by (simp add: create_stats_map_of assms(2) s electorate_stats_perm [OF assms(1)])
qed

text \<open>
  C9. For a list of records with pairwise distinct urls and any permutation of it, the state
  statistics and the federal statistics are the same mappings, and the summary (total clinics,
  bulk-billed clinics, districts covered on each axis) is the same.
\<close>

theorem aggregation_order_independent:
  assumes "distinct (map url rs)" and "mset rs' = mset rs"
  shows "map_of (state_electorate_stats (snd (save_results now rs')))
           = map_of (state_electorate_stats (snd (save_results now rs)))
       \<and> map_of (federal_electorate_stats (snd (save_results now rs')))
           = map_of (federal_electorate_stats (snd (save_results now rs)))
       \<and> summary (snd (save_results now rs')) = summary (snd (save_results now rs))"
proof -
  have "mset (map url rs') = mset (map url rs)"
    using assms(2) by simp
  then have d': "distinct (map url rs')"
    using assms(1) by (metis mset_eq_imp_distinct_iff)
  have id: "remove_duplicates rs = rs" "remove_duplicates rs' = rs'"
    using assms(1) d' by (simp_all add: remove_duplicates_id)
  have s: "set rs' = set rs"
    using assms(2) by (rule mset_eq_setD)
  have len: "length rs' = length rs"
    using assms(2) by (rule mset_eq_length)
  have st: "map_of (create_stats (by_state (organize rs'))) = map_of (create_stats (by_state (organize rs)))"
    using assms(2) by (rule stats_lookup_perm) (rule by_state_lookup)
  have fe: "map_of (create_stats (by_federal (organize rs'))) = map_of (create_stats (by_federal (organize rs)))"
    using assms(2) by (rule stats_lookup_perm) (rule by_federal_lookup)
  have bb: "bulk_billed_count (organize rs') = bulk_billed_count (organize rs)"
    using filter_length_mset [OF assms(2)] by (simp add: organize_def organize_bulk_billed_count)
  show ?thesis
    using st fe bb len s by (simp add: save_results_def Let_def id by_state_length by_federal_length)
qed

text \<open>
  Three records in two orders: the statistics agree as mappings and the summaries are equal,
  although the keys of the statistics come in a different order.
\<close>

theorem aggregation_order_independent_witness:
  "distinct (map url three_clinics) \<and> mset three_clinics_permuted = mset three_clinics
   \<and> map_of (state_electorate_stats (snd (save_results ''2025-01-01 00:00:00'' three_clinics_permuted)))
       = map_of (state_electorate_stats (snd (save_results ''2025-01-01 00:00:00'' three_clinics)))
   \<and> map_of (federal_electorate_stats (snd (save_results ''2025-01-01 00:00:00'' three_clinics_permuted)))
       = map_of (federal_electorate_stats (snd (save_results ''2025-01-01 00:00:00'' three_clinics)))
   \<and> summary (snd (save_results ''2025-01-01 00:00:00'' three_clinics_permuted))
       = summary (snd (save_results ''2025-01-01 00:00:00'' three_clinics))
   \<and> map fst (state_electorate_stats (snd (save_results ''2025-01-01 00:00:00'' three_clinics_permuted)))
       \<noteq> map fst (state_electorate_stats (snd (save_results ''2025-01-01 00:00:00'' three_clinics)))"
proof -
  have d: "distinct (map url three_clinics)"
    by code_simp
  have p: "mset three_clinics_permuted = mset three_clinics"
    by (simp add: three_clinics_def three_clinics_permuted_def)
  have o: "map fst (state_electorate_stats (snd (save_results ''2025-01-01 00:00:00'' three_clinics_permuted)))
       \<noteq> map fst (state_electorate_stats (snd (save_results ''2025-01-01 00:00:00'' three_clinics)))"
    by code_simp
  from aggregation_order_independent [OF d p, of "''2025-01-01 00:00:00''"] d p o show ?thesis
    by blast
qed

section \<open>Properties of the matcher\<close>

lemma step_char_dead:
  assumes "\<And>st'. suffix (rest st') (rest st) \<Longrightarrow> k st' = None"
  shows "step_char p k st = None"
proof (cases "rest st")
  case Nil
  then show ?thesis by (simp add: step_char_def)
next
  case (Cons c cs)
  have "suffix (rest (st\<lparr>prev := Some c, rest := cs\<rparr>)) (rest st)"
    using Cons by (simp add: suffix_Cons)
  then have "k (st\<lparr>prev := Some c, rest := cs\<rparr>) = None"
    by (rule assms)
  with Cons show ?thesis by (simp add: step_char_def)
qed

lemma lit_dead:
  "(\<And>st'. suffix (rest st') (rest st) \<Longrightarrow> k st' = None) \<Longrightarrow> lit ic s k st = None"
proof (induction s arbitrary: st)
  case Nil
  then show ?case by simp
next
  case (Cons a as)
  have "step_char (in_class ic [Chr a]) (lit ic as k) st = None"
  proof (rule step_char_dead)
    fix st' :: mstate
    assume s: "suffix (rest st') (rest st)"
    show "lit ic as k st' = None"
    proof (rule Cons.IH)
      fix st'' :: mstate
      assume "suffix (rest st'') (rest st')"
      with s have "suffix (rest st'') (rest st)"
        by (rule suffix_order.trans [rotated])
      then show "k st'' = None" by (rule Cons.prems)
    qed
  qed
  then show ?case by simp
qed

lemma greedy_dead:
  "(\<And>st'. suffix (rest st') cs \<Longrightarrow> k st' = None) \<Longrightarrow> greedy p k pv cs g = None"
proof (induction cs arbitrary: pv)
  case Nil
  then show ?case by simp
next
  case (Cons c cs)
  have here: "k \<lparr>prev = pv, rest = c # cs, group1 = g\<rparr> = None"
    by (rule Cons.prems) simp
  have "greedy p k (Some c) cs g = None"
  proof (rule Cons.IH)
    fix st' :: mstate
    assume "suffix (rest st') cs"
    then have "suffix (rest st') (c # cs)" by (simp add: suffix_Cons)
    then show "k st' = None" by (rule Cons.prems)
  qed
  with here show ?case by simp
qed

lemma lazy_dead:
  "(\<And>st'. suffix (rest st') cs \<Longrightarrow> k st' = None) \<Longrightarrow> lazy p k pv cs g = None"
proof (induction cs arbitrary: pv)
  case Nil
  then show ?case by simp
next
  case (Cons c cs)
  have here: "k \<lparr>prev = pv, rest = c # cs, group1 = g\<rparr> = None"
    by (rule Cons.prems) simp
  have "lazy p k (Some c) cs g = None"
  proof (rule Cons.IH)
    fix st' :: mstate
    assume "suffix (rest st') cs"
    then have "suffix (rest st') (c # cs)" by (simp add: suffix_Cons)
    then show "k st' = None" by (rule Cons.prems)
  qed
  with here show ?case by simp
qed

lemma exactly_dead:
  "(\<And>st'. suffix (rest st') (rest st) \<Longrightarrow> k st' = None) \<Longrightarrow> exactly n p k st = None"
proof (induction n arbitrary: st)
  case 0
  then show ?case by simp
next
  case (Suc n)
  have "step_char p (exactly n p k) st = None"
  proof (rule step_char_dead)
    fix st' :: mstate
    assume s: "suffix (rest st') (rest st)"
    show "exactly n p k st' = None"
    proof (rule Suc.IH)
      fix st'' :: mstate
      assume "suffix (rest st'') (rest st')"
      with s have "suffix (rest st'') (rest st)"
        by (rule suffix_order.trans [rotated])
      then show "k st'' = None" by (rule Suc.prems)
    qed
  qed
  then show ?case by simp
qed

text \<open>A continuation that accepts no state from here on makes the match fail.\<close>

lemma match_dead:
  "(\<And>st'. suffix (rest st') (rest st) \<Longrightarrow> k st' = None) \<Longrightarrow> match ic r k st = None"
proof (induction r arbitrary: k st)
  case (Lit s)
  then show ?case by (simp add: lit_dead)
next
  case (One cs)
  then show ?case by (simp add: step_char_dead)
next
  case WordBoundary
  then show ?case by simp
next
  case (Seq r1 r2)
  have "match ic r1 (match ic r2 k) st = None"
  proof (rule Seq.IH(1))
    fix st' :: mstate
    assume s: "suffix (rest st') (rest st)"
    show "match ic r2 k st' = None"
    proof (rule Seq.IH(2))
      fix st'' :: mstate
      assume "suffix (rest st'') (rest st')"
      with s have "suffix (rest st'') (rest st)"
        by (rule suffix_order.trans [rotated])
      then show "k st'' = None" by (rule Seq.prems)
    qed
  qed
  then show ?case by simp
next
  case (Alt r1 r2)
  then show ?case by simp
next
  case (Opt r)
  then show ?case by simp
next
  case (Star cs)
  then show ?case by (simp add: greedy_dead)
next
  case (Plus cs)
  have "step_char (accepts ic cs) (\<lambda>st'. greedy (accepts ic cs) k (prev st') (rest st') (group1 st')) st = None"
  proof (rule step_char_dead)
    fix st' :: mstate
    assume s: "suffix (rest st') (rest st)"
    show "greedy (accepts ic cs) k (prev st') (rest st') (group1 st') = None"
    proof (rule greedy_dead)
      fix st'' :: mstate
      assume "suffix (rest st'') (rest st')"
      with s have "suffix (rest st'') (rest st)"
        by (rule suffix_order.trans [rotated])
      then show "k st'' = None" by (rule Plus.prems)
    qed
  qed
  then show ?case by simp
next
  case (LazyStar cs)
  then show ?case by (simp add: lazy_dead)
next
  case (LazyPlus cs)
  have "step_char (accepts ic cs) (\<lambda>st'. lazy (accepts ic cs) k (prev st') (rest st') (group1 st')) st = None"
  proof (rule step_char_dead)
    fix st' :: mstate
    assume s: "suffix (rest st') (rest st)"
    show "lazy (accepts ic cs) k (prev st') (rest st') (group1 st') = None"
    proof (rule lazy_dead)
      fix st'' :: mstate
      assume "suffix (rest st'') (rest st')"
      with s have "suffix (rest st'') (rest st)"
        by (rule suffix_order.trans [rotated])
      then show "k st'' = None" by (rule LazyPlus.prems)
    qed
  qed
  then show ?case by simp
next
  case (Times n cs)
  then show ?case by (simp add: exactly_dead)
next
  case (Group r)
  have "match ic r (\<lambda>st'. k (close_group st st')) st = None"
  proof (rule Group.IH)
    fix st' :: mstate
    assume "suffix (rest st') (rest st)"
    then have "suffix (rest (close_group st st')) (rest st)"
      by (simp add: close_group_def)
    then show "k (close_group st st') = None" by (rule Group.prems)
  qed
  then show ?case by simp
qed

lemma lit_needs:
  "a \<in> set s \<Longrightarrow> \<forall>c \<in> set (rest st). \<not> in_class ic [Chr a] c \<Longrightarrow> lit ic s k st = None"
proof (induction s arbitrary: st)
  case Nil
  then show ?case by simp
next
  case (Cons b bs)
  show ?case
  proof (cases "rest st")
    case Nil
    then show ?thesis by (simp add: step_char_def)
  next
    case (Cons c cs)
    show ?thesis
    proof (cases "b = a")
      case True
      with Cons Cons.prems(2) show ?thesis by (simp add: step_char_def)
    next
      case False
      with Cons.prems(1) have "a \<in> set bs" by simp
      moreover have "\<forall>c' \<in> set (rest (st\<lparr>prev := Some c, rest := cs\<rparr>)). \<not> in_class ic [Chr a] c'"
        using Cons Cons.prems(2) by simp
      ultimately have "lit ic bs k (st\<lparr>prev := Some c, rest := cs\<rparr>) = None"
        by (rule Cons.IH)
      with Cons show ?thesis by (simp add: step_char_def)
    qed
  qed
qed

text \<open>A pattern with a literal letter on every way through it matches no text without the letter.\<close>

lemma match_needs:
  "needs a r \<Longrightarrow> \<forall>c \<in> set (rest st). \<not> in_class ic [Chr a] c \<Longrightarrow> match ic r k st = None"
proof (induction r arbitrary: k st)
  case (Lit s)
  then show ?case by (simp add: lit_needs)
next
  case (Seq r1 r2)
  show ?case
  proof (cases "needs a r1")
    case True
    with Seq.IH(1) Seq.prems(2) show ?thesis by simp
  next
    case False
    with Seq.prems(1) have n2: "needs a r2" by simp
    have "match ic r1 (match ic r2 k) st = None"
    proof (rule match_dead)
      fix st' :: mstate
      assume "suffix (rest st') (rest st)"
      then have "set (rest st') \<subseteq> set (rest st)" by (rule set_mono_suffix)
      with Seq.prems(2) have "\<forall>c \<in> set (rest st'). \<not> in_class ic [Chr a] c" by blast
      with n2 show "match ic r2 k st' = None" by (rule Seq.IH(2))
    qed
    then show ?thesis by simp
  qed
next
  case (Alt r1 r2)
  then show ?case by simp
next
  case (Group r)
  then show ?case by simp
qed simp_all

lemma search_needs:
  "needs a r \<Longrightarrow> \<forall>c \<in> set s. \<not> in_class ic [Chr a] c \<Longrightarrow> search_from ic r p s = None"
proof (induction s arbitrary: p)
  case Nil
  then show ?case by (simp add: match_here_def match_needs)
next
  case (Cons c cs)
  have "match ic r Some \<lparr>prev = p, rest = c # cs, group1 = None\<rparr> = None"
    using Cons.prems by (intro match_needs) simp_all
  moreover have "search_from ic r (Some c) cs = None"
    using Cons.prems by (intro Cons.IH) simp_all
  ultimately show ?case by (simp add: match_here_def)
qed

lemma re_search_needs:
  "needs a r \<Longrightarrow> \<forall>c \<in> set s. \<not> in_class ic [Chr a] c \<Longrightarrow> re_search ic r s = None"
  by (simp add: re_search_def search_needs)

lemma re_findall_needs:
  "needs a r \<Longrightarrow> \<forall>c \<in> set s. \<not> in_class ic [Chr a] c \<Longrightarrow> re_findall ic r s = []"
  by (cases "length s") (simp_all add: re_findall_def search_needs)

lemma needs_WA: "needs CHR ''W'' street_re" "needs CHR ''W'' page_re" "needs CHR ''W'' near_link_re"
  by (simp_all add: street_re_def page_re_def near_link_re_def)

section \<open>The example pages\<close>

subsection \<open>Evaluation\<close>

lemma exactly_numeral: "exactly (numeral v) p k = step_char p (exactly (pred_numeral v) p k)"
  by (simp add: numeral_eq_Suc)

lemma exactly_one: "exactly 1 p k = step_char p k"
  by simp

lemmas text_eval =
  code_def isspace_def isdigit_def isupper_def lower_char_def upper_char_def isword_def lower_def
  strip_def split_def collapse_def char_of_def bit_Suc_0_iff

lemmas regex_eval =
  re_findall_def re_search_def match_here_def step_char_def in_class_def at_boundary_def
  close_group_def group_1_def digit_def space_def exactly_numeral exactly_one

lemmas page_eval =
  soup_find_def find_all_def descendants_def get_text_def get_text_strip_def
  find_tel_link_def href_has_tel_def find_directions_link_def string_has_directions_def
  find_parent_def

subsection \<open>The page with an address element\<close>

lemma address_element:
  "soup_find ''address'' page_with_address
     = Some (Tag ''address'' [] [Text '' 5 High Street, '', Tag ''br'' [] [], Text ''FREMANTLE  WA 6160 ''])"
  by (simp add: page_with_address_def page_eval)

lemma address_element_text:
  "get_text_strip [Text '' 5 High Street, '', Tag ''br'' [] [], Text ''FREMANTLE  WA 6160 '']
     = ''5 High Street,FREMANTLE  WA 6160''"
  by (simp add: page_eval text_eval)

lemma address_element_collapsed:
  "collapse ''5 High Street,FREMANTLE  WA 6160'' = ''5 High Street,FREMANTLE WA 6160''"
  by (simp add: text_eval)

lemma address_of_page: "address_STATE_AND_FEDERAL page_with_address = ''5 High Street,FREMANTLE  WA 6160''"
  by (simp add: address_STATE_AND_FEDERAL_def address_element address_element_text)

lemma postcode_of_address: "address_postcode ''5 High Street,FREMANTLE  WA 6160'' ''6000'' = ''6160''"
  by (simp add: address_postcode_def postcode_re_def regex_eval text_eval)

lemma suburb_of_address: "address_suburb ''5 High Street,FREMANTLE  WA 6160'' ''Perth'' = ''FREMANTLE''"
  by (simp add: address_suburb_def suburb_re_def regex_eval text_eval)

lemma fremantle_resolves:
  "get_state_electorate (load_state_mapping fremantle_rows) ''6160'' ''FREMANTLE'' = Inr ''Fremantle''"
  by (simp add: get_state_electorate_def load_state_mapping_def fremantle_rows_def state_mapping_append_def
      text_eval)

lemma fremantle_federal:
  "get_federal_electorate (load_federal_mapping example_federal_rows) ''6160'' ''FREMANTLE'' = ''Fremantle''"
  by (simp add: get_federal_electorate_def load_federal_mapping_def example_federal_rows_def federal_key_def
      text_eval)

lemma street_pattern_found:
  "re_search True street_re ''Rooms at 5 High St, Fremantle WA 6160'' \<noteq> None"
  by (simp add: street_re_def regex_eval text_eval)

lemma method2_of_page: "method2 page_with_address = Some ''Rooms at 5 High St, Fremantle WA 6160''"
proof -
  have t: "map (\<lambda>elem. get_text_strip (contents elem)) (find_all [''p'', ''div'', ''span''] page_with_address)
      = [''Rooms at 5 High St, Fremantle WA 6160'', ''Bulk billing only for concession card holders.'']"
    by (simp add: page_with_address_def page_eval text_eval)
  have c: "collapse ''Rooms at 5 High St, Fremantle WA 6160'' = ''Rooms at 5 High St, Fremantle WA 6160''"
    by (simp add: text_eval)
  show ?thesis
    by (simp add: method2_def t street_pattern_found c)
qed

subsection \<open>The page without an address\<close>

lemma no_tel_link: "find_tel_link page_without_address = None"
  by (simp add: page_without_address_def page_eval)

lemma text_of_page:
  "get_text page_without_address
     = ''Hay Street ClinicMixed billing - fees apply for some services. Phone: 08 9300 1234''"
  by (simp add: page_without_address_def page_eval)

lemma phone_in_text:
  "map_option group_1 (re_search False phone_re
      ''Hay Street ClinicMixed billing - fees apply for some services. Phone: 08 9300 1234'')
     = Some ''08 9300 1234''"
  by (simp add: phone_re_def regex_eval text_eval)

lemma labelled_phone_in_text:
  "map_option group_1 (re_search False labelled_phone_re
      ''Hay Street ClinicMixed billing - fees apply for some services. Phone: 08 9300 1234'')
     = Some ''08 9300 1234''"
  by (simp add: labelled_phone_re_def phone_re_def regex_eval text_eval)

lemma no_W_in_text:
  "\<forall>c \<in> set ''Hay Street ClinicMixed billing - fees apply for some services. Phone: 08 9300 1234''.
     \<not> in_class True [Chr CHR ''W''] c"
  by (simp add: in_class_def text_eval)

lemma no_W_in_paragraph:
  "\<forall>c \<in> set ''Mixed billing - fees apply for some services. Phone: 08 9300 1234''.
     \<not> in_class True [Chr CHR ''W''] c"
  by (simp add: in_class_def text_eval)

lemma method1_none: "method1 page_without_address = None"
  by (simp add: method1_def page_without_address_def page_eval)

lemma method2_none: "method2 page_without_address = None"
proof -
  have "map (\<lambda>elem. get_text_strip (contents elem)) (find_all [''p'', ''div'', ''span''] page_without_address)
          = [''Mixed billing - fees apply for some services. Phone: 08 9300 1234'']"
    by (simp add: page_without_address_def page_eval text_eval)
  moreover have "re_search True street_re ''Mixed billing - fees apply for some services. Phone: 08 9300 1234'' = None"
    using needs_WA(1) no_W_in_paragraph by (rule re_search_needs)
  ultimately show ?thesis by (simp add: method2_def)
qed

lemma method3_none: "method3 page_without_address = None"
  by (simp add: method3_def page_without_address_def page_eval)

lemma method4_none: "method4 py page_without_address = None"
  by (simp add: method4_def page_without_address_def page_eval)

lemma method5_none: "method5 page_without_address = None"
proof -
  have "re_findall True page_re (get_text page_without_address) = []"
    unfolding text_of_page using needs_WA(2) no_W_in_text by (rule re_findall_needs)
  then show ?thesis by (simp add: method5_def)
qed

lemma no_address_found: "extract_address_better py page_without_address = None"
  by (simp add: extract_address_better_def method1_none method2_none method3_none method4_none method5_none)

lemma address_STATE_AND_FEDERAL_none: "address_STATE_AND_FEDERAL page_without_address = []"
  by (simp add: address_STATE_AND_FEDERAL_def page_without_address_def page_eval)

lemma address_FIXED_none: "address_FIXED page_without_address = []"
proof -
  have a: "soup_find ''address'' page_without_address = None"
    by (simp add: page_without_address_def page_eval)
  have t: "map (\<lambda>elem. get_text (contents elem)) (find_all [''p'', ''div''] page_without_address)
      = [''Mixed billing - fees apply for some services. Phone: 08 9300 1234'']"
    by (simp add: page_without_address_def page_eval)
  have w: "\<not> sublist ''WA'' ''Mixed billing - fees apply for some services. Phone: 08 9300 1234''"
    by (simp add: sublist_code)
  show ?thesis
    by (simp add: address_FIXED_def a t w)
qed

section \<open>Properties of the record builders\<close>

subsection \<open>District axes\<close>

text \<open>
  C1, as the code has it. In the two dual-electorate builders the federal electorate is the
  result of the federal resolver on the postcode and suburb of the record, which are re-derived
  from the address text (the search values remain where the address has no match). The state
  electorate of the record is the value the caller passes, in all three builders; the state
  resolver is not called.
\<close>

theorem district_axes:
  "(let r = get_clinic_details_STATE_AND_FEDERAL fed now sp u search_postcode search_suburb se
    in federal_electorate r = get_federal_electorate fed (postcode r) (suburb r)
       \<and> postcode r = address_postcode (address_STATE_AND_FEDERAL sp) search_postcode
       \<and> suburb r = address_suburb (address_STATE_AND_FEDERAL sp) search_suburb
       \<and> state_electorate r = se)
   \<and> (let r = get_clinic_details_BETTER_ADDRESSES py fed now sp u search_postcode search_suburb se;
           a = (case extract_address_better py sp of None \<Rightarrow> [] | Some t \<Rightarrow> t)
       in federal_electorate r = get_federal_electorate fed (postcode r) (suburb r)
          \<and> postcode r = address_postcode a search_postcode
          \<and> suburb r = address_suburb a search_suburb
          \<and> state_electorate r = se)
   \<and> (let r = get_clinic_details_FIXED now sp u search_postcode search_suburb se
       in postcode r = address_postcode (address_FIXED sp) search_postcode
          \<and> suburb r = address_suburb (address_FIXED sp) search_suburb
          \<and> electorate r = se)"
  by (simp add: get_clinic_details_STATE_AND_FEDERAL_def get_clinic_details_BETTER_ADDRESSES_def
      get_clinic_details_FIXED_def Let_def)

text \<open>
  A search for Perth 6000 (state electorate Perth) finds a clinic whose page gives an address in
  FREMANTLE WA 6160. The record has the re-derived suburb and postcode, for which the state
  resolver gives Fremantle, and the state electorate Perth of the search.
\<close>

theorem state_axis_not_resolved:
  "postcode (record_STATE_AND_FEDERAL page_with_address) = ''6160''
   \<and> suburb (record_STATE_AND_FEDERAL page_with_address) = ''FREMANTLE''
   \<and> get_state_electorate (load_state_mapping fremantle_rows) ''6160'' ''FREMANTLE'' = Inr ''Fremantle''
   \<and> state_electorate (record_STATE_AND_FEDERAL page_with_address) = ''Perth''
   \<and> federal_electorate (record_STATE_AND_FEDERAL page_with_address) = ''Fremantle''"
  by (simp add: record_STATE_AND_FEDERAL_def get_clinic_details_STATE_AND_FEDERAL_def Let_def
      address_of_page postcode_of_address suburb_of_address fremantle_resolves fremantle_federal)

subsection \<open>Billing classifier\<close>

text \<open>
  C5. On the lower-cased page text the rules apply in order, the first match winning: a text
  with \<open>mixed billing\<close> and \<open>fees apply\<close> and none of the full-bulk-billing phrases is
  classified \<open>(False, Mixed Billing)\<close>; a text with \<open>bulk billing only\<close> is classified
  \<open>(True, 100% Bulk Billed)\<close> whatever else it has. The record of the dual-electorate builder
  carries the classification of the lower-cased text of the page.
\<close>

theorem classifier_priority:
  "(sublist ''mixed billing'' t \<and> sublist ''fees apply'' t
      \<and> \<not> sublist ''bulk billing only'' t \<and> \<not> sublist ''100% bulk bill'' t
      \<and> \<not> sublist ''fully bulk billed'' t \<and> \<not> sublist ''bulk bills all patients'' t
    \<longrightarrow> classify_billing t = (False, ''Mixed Billing''))
   \<and> (sublist ''bulk billing only'' t \<longrightarrow> classify_billing t = (True, ''100% Bulk Billed''))
   \<and> (is_bulk_billed (get_clinic_details_STATE_AND_FEDERAL fed now sp u pc sub se),
        billing_status (get_clinic_details_STATE_AND_FEDERAL fed now sp u pc sub se))
       = classify_billing (lower (get_text sp))"
  by (simp add: classify_billing_def get_clinic_details_STATE_AND_FEDERAL_def Let_def)

theorem classifier_priority_witness:
  "classify_billing (lower ''Mixed billing - fees apply for some services'') = (False, ''Mixed Billing'')
   \<and> classify_billing (lower ''Fees apply. Bulk billing only for concession card holders.'')
       = (True, ''100% Bulk Billed'')"
proof -
  let ?a = "lower ''Mixed billing - fees apply for some services''"
  let ?b = "lower ''Fees apply. Bulk billing only for concession card holders.''"
  have la: "?a = ''mixed billing - fees apply for some services''"
    by (simp add: text_eval)
  have lb: "?b = ''fees apply. bulk billing only for concession card holders.''"
    by (simp add: text_eval)
  have ha: "sublist ''mixed billing'' ?a \<and> sublist ''fees apply'' ?a
      \<and> \<not> sublist ''bulk billing only'' ?a \<and> \<not> sublist ''100% bulk bill'' ?a
      \<and> \<not> sublist ''fully bulk billed'' ?a \<and> \<not> sublist ''bulk bills all patients'' ?a"
    unfolding la by (simp add: sublist_code)
  have hb: "sublist ''bulk billing only'' ?b"
    unfolding lb by (simp add: sublist_code)
  show ?thesis
    using classifier_priority [of ?a, THEN conjunct1, rule_format, OF ha]
      classifier_priority [of ?b, THEN conjunct2, THEN conjunct1, rule_format, OF hb]
    by (rule conjI)
qed

text \<open>
  C10. The classifier returns \<open>is_bulk_billed\<close> true exactly when the status is
  \<open>100% Bulk Billed\<close>; the status is one of four values, and for the other three the flag is
  false. The records of the three builders carry the pair.
\<close>

theorem bulk_billed_iff_status:
  "fst (classify_billing t) = (snd (classify_billing t) = ''100% Bulk Billed'')
   \<and> snd (classify_billing t) \<in> {''100% Bulk Billed'', ''Mixed Billing'', ''Private Billing'', ''Unknown''}
   \<and> is_bulk_billed (get_clinic_details_STATE_AND_FEDERAL fed now sp u pc sub se)
       = (billing_status (get_clinic_details_STATE_AND_FEDERAL fed now sp u pc sub se) = ''100% Bulk Billed'')
   \<and> is_bulk_billed (get_clinic_details_FIXED now sp u pc sub se)
       = (billing_status (get_clinic_details_FIXED now sp u pc sub se) = ''100% Bulk Billed'')
   \<and> is_bulk_billed (get_clinic_details_BETTER_ADDRESSES py fed now sp u pc sub se)
       = (billing_status (get_clinic_details_BETTER_ADDRESSES py fed now sp u pc sub se) = ''100% Bulk Billed'')"
proof -
  have c: "\<And>t. fst (classify_billing t) = (snd (classify_billing t) = ''100% Bulk Billed'')"
    by (simp add: classify_billing_def)
  have s: "snd (classify_billing t) \<in> {''100% Bulk Billed'', ''Mixed Billing'', ''Private Billing'', ''Unknown''}"
    by (simp add: classify_billing_def)
  show ?thesis
    using s by (simp add: c get_clinic_details_STATE_AND_FEDERAL_def get_clinic_details_FIXED_def
        get_clinic_details_BETTER_ADDRESSES_def Let_def)
qed

subsection \<open>Address extractor\<close>

text \<open>
  C6. When the first \<open>address\<close> element of the page has a text that, with whitespace collapsed,
  is longer than 10 characters and contains \<open>WA\<close>, the extractor returns that collapsed text,
  whatever the later methods would find.
\<close>

theorem method1_wins:
  assumes "soup_find ''address'' sp = Some address_elem"
    and "t = collapse (get_text_strip (contents address_elem))"
    and "length t > 10" and "sublist ''WA'' t"
  shows "extract_address_better py sp = Some t"
  using assms by (simp add: extract_address_better_def method1_def Let_def)

text \<open>
  On the example page the address element gives \<open>5 High Street,FREMANTLE WA 6160\<close>. The street
  pattern of method 2 is found in a paragraph of the same page, which the extractor never
  returns.
\<close>

theorem method1_wins_witness:
  "soup_find ''address'' page_with_address
     = Some (Tag ''address'' [] [Text '' 5 High Street, '', Tag ''br'' [] [], Text ''FREMANTLE  WA 6160 ''])
   \<and> collapse (get_text_strip [Text '' 5 High Street, '', Tag ''br'' [] [], Text ''FREMANTLE  WA 6160 ''])
       = ''5 High Street,FREMANTLE WA 6160''
   \<and> extract_address_better no_json page_with_address = Some ''5 High Street,FREMANTLE WA 6160''
   \<and> method2 page_with_address = Some ''Rooms at 5 High St, Fremantle WA 6160''"
proof -
  let ?elem = "Tag ''address'' [] [Text '' 5 High Street, '', Tag ''br'' [] [], Text ''FREMANTLE  WA 6160 '']"
  let ?t = "''5 High Street,FREMANTLE WA 6160''"
  have c: "?t = collapse (get_text_strip (contents ?elem))"
    by (simp add: address_element_text address_element_collapsed)
  have l: "length ?t > 10"
    by simp
  have w: "sublist ''WA'' ?t"
    by (simp add: sublist_code)
  from method1_wins [OF address_element c l w, of no_json] address_element c method2_of_page show ?thesis
    by simp
qed

text \<open>
  In the improved-address builder a result \<open>None\<close> of the extractor gives the address
  \<open>f"{search_suburb}, WA {search_postcode}"\<close>.
\<close>

lemma placeholder_with_cascade:
  assumes "extract_address_better py sp = None"
  shows "address (get_clinic_details_BETTER_ADDRESSES py fed now sp u search_postcode search_suburb se)
           = search_suburb @ '', WA '' @ search_postcode"
  using assms by (simp add: get_clinic_details_BETTER_ADDRESSES_def Let_def)

lemma placeholder_on_page: "address (record_BETTER_ADDRESSES page_without_address) = ''Perth, WA 6000''"
  using placeholder_with_cascade [OF no_address_found, of no_json "load_federal_mapping example_federal_rows"
      "''2025-01-01 00:00:00''" "''https://www.healthdirect.gov.au/c/1''" "''6000''" "''Perth''" "''Perth''"]
  by (simp add: record_BETTER_ADDRESSES_def)

lemma no_address_element: "soup_find ''address'' page_without_address = None"
  by (simp add: page_without_address_def page_eval)

text \<open>
  C7 at a page on which no address is found, reached by the search for Perth 6000: the page has
  no \<open>address\<close> element and all five methods of the extractor fail. The improved-address
  builder stores the placeholder \<open>Perth, WA 6000\<close>; the dual-electorate builder and the
  state-only builder, whose address lookup finds nothing either, store the sentinel
  \<open>Unknown\<close>.
\<close>

theorem placeholder_missing:
  "soup_find ''address'' page_without_address = None
   \<and> extract_address_better no_json page_without_address = None
   \<and> address (record_BETTER_ADDRESSES page_without_address) = ''Perth, WA 6000''
   \<and> address (record_STATE_AND_FEDERAL page_without_address) = ''Unknown''
   \<and> address (record_FIXED page_without_address) = ''Unknown''"
proof (intro conjI)
  show "soup_find ''address'' page_without_address = None"
    by (rule no_address_element)
  show "extract_address_better no_json page_without_address = None"
    by (rule no_address_found)
  show "address (record_BETTER_ADDRESSES page_without_address) = ''Perth, WA 6000''"
    by (rule placeholder_on_page)
  show "address (record_STATE_AND_FEDERAL page_without_address) = ''Unknown''"
    by (simp add: record_STATE_AND_FEDERAL_def get_clinic_details_STATE_AND_FEDERAL_def Let_def
        address_STATE_AND_FEDERAL_none)
  show "address (record_FIXED page_without_address) = ''Unknown''"
    by (simp add: record_FIXED_def get_clinic_details_FIXED_def Let_def address_FIXED_none)
qed

subsection \<open>Phone\<close>

text \<open>
  Where the phone of a record comes from: the text of the first \<open>tel:\<close> link in all three
  builders; without such a link, the first match of the phone pattern in the page text or
  \<open>N/A\<close> in the state-only and the improved-address builders, and \<open>N/A\<close> in the
  dual-electorate builder.
\<close>

lemma phone_sources:
  "(find_tel_link sp = Some phone_elem \<longrightarrow>
      phone (get_clinic_details_FIXED now sp u pc sub se) = get_text_strip (contents phone_elem)
    \<and> phone (get_clinic_details_BETTER_ADDRESSES py fed now sp u pc sub se) = get_text_strip (contents phone_elem)
    \<and> phone (get_clinic_details_STATE_AND_FEDERAL fed now sp u pc sub se) = get_text_strip (contents phone_elem))
   \<and> (find_tel_link sp = None \<longrightarrow>
      phone (get_clinic_details_FIXED now sp u pc sub se)
        = (case re_search False phone_re (get_text sp) of Some m \<Rightarrow> group_1 m | None \<Rightarrow> ''N/A'')
    \<and> phone (get_clinic_details_BETTER_ADDRESSES py fed now sp u pc sub se)
        = (case re_search False labelled_phone_re (get_text sp) of Some m \<Rightarrow> group_1 m | None \<Rightarrow> ''N/A'')
    \<and> phone (get_clinic_details_STATE_AND_FEDERAL fed now sp u pc sub se) = ''N/A'')"
  by (simp add: get_clinic_details_FIXED_def get_clinic_details_BETTER_ADDRESSES_def
      get_clinic_details_STATE_AND_FEDERAL_def Let_def phone_from_link_def phone_from_link_or_text_def)

text \<open>
  C8 at a page with no \<open>tel:\<close> link whose text has a phone number: the state-only and the
  improved-address builders take the number from the text, the dual-electorate builder
  stores \<open>N/A\<close>.
\<close>

theorem phone_fallback_missing:
  "find_tel_link page_without_address = None
   \<and> map_option group_1 (re_search False phone_re (get_text page_without_address)) = Some ''08 9300 1234''
   \<and> phone (record_FIXED page_without_address) = ''08 9300 1234''
   \<and> phone (record_BETTER_ADDRESSES page_without_address) = ''08 9300 1234''
   \<and> phone (record_STATE_AND_FEDERAL page_without_address) = ''N/A''"
proof -
  have p: "re_search False phone_re (get_text page_without_address) \<noteq> None"
      "group_1 (the (re_search False phone_re (get_text page_without_address))) = ''08 9300 1234''"
    using phone_in_text unfolding text_of_page by auto
  have q: "re_search False labelled_phone_re (get_text page_without_address) \<noteq> None"
      "group_1 (the (re_search False labelled_phone_re (get_text page_without_address))) = ''08 9300 1234''"
    using labelled_phone_in_text unfolding text_of_page by auto
  show ?thesis
    using p q phone_in_text
    by (auto simp: record_FIXED_def record_BETTER_ADDRESSES_def record_STATE_AND_FEDERAL_def
        get_clinic_details_FIXED_def get_clinic_details_BETTER_ADDRESSES_def
        get_clinic_details_STATE_AND_FEDERAL_def Let_def phone_from_link_def phone_from_link_or_text_def
        no_tel_link text_of_page split: option.splits)
qed

end
